theory Spec2Isabelle
  imports Main "HOL-Library.Sublist"
begin

section \<open>The stratum relay of open-grin-pool\<close>

text \<open>
  The stratum server accepts one TCP connection per miner, keeps a \<open>minerSession\<close> for it,
  relays the miner's JSON frames to the node and classifies what the node pushes back.
  Go strings and byte slices are byte sequences, modelled as \<open>string\<close> (a list of 8-bit
  characters). Everything a function does besides returning is recorded as a list of
  \<open>effect\<close>s in program order: log lines, socket writes, calls into the database and
  goroutines started.
\<close>

subsection \<open>Dynamic JSON values and Go maps\<close>

typedecl float64

text \<open>
  What \<open>encoding/json\<close> stores in an \<open>interface{}\<close>: nil, bool, float64, string, a slice or a
  map with string keys. The relay never looks inside a number.
\<close>

datatype dyn =
    DNil
  | DBool bool
  | DFloat64 float64
  | DString string
  | DSlice "dyn list"
  | DMap "string \<Rightarrow> dyn option"

text \<open>A value of type \<open>map[string]interface{}\<close>; \<open>None\<close> is the nil map.\<close>

type_synonym gomap = "(string \<Rightarrow> dyn option) option"

text \<open>\<open>m[k]\<close>: the nil interface when the map is nil or has no such key.\<close>

definition index :: "gomap \<Rightarrow> string \<Rightarrow> dyn" where
  "index m k = (case m of None \<Rightarrow> DNil | Some f \<Rightarrow> (case f k of None \<Rightarrow> DNil | Some v \<Rightarrow> v))"

text \<open>The type assertion \<open>v.(string)\<close> in its two-valued form: the zero value and false on a mismatch.\<close>

fun assertString :: "dyn \<Rightarrow> string \<times> bool" where
  "assertString (DString s) = (s, True)"
| "assertString _ = ('''', False)"

text \<open>The type assertion \<open>v.(map[string]interface{})\<close>: the nil map and false on a mismatch.\<close>

fun assertMap :: "dyn \<Rightarrow> gomap \<times> bool" where
  "assertMap (DMap f) = (Some f, True)"
| "assertMap _ = (None, False)"

subsection \<open>The functions of package strings and strconv that the relay calls\<close>

text \<open>\<open>strings.Contains(s, substr)\<close>: \<open>substr\<close> occurs in \<open>s\<close> at some offset.\<close>

fun Contains :: "string \<Rightarrow> string \<Rightarrow> bool" where
  "Contains [] substr = (substr = [])"
| "Contains (c # s) substr = (prefix substr (c # s) \<or> Contains s substr)"

text \<open>
  \<open>strings.Trim(s, cutset)\<close> for a cutset of ASCII characters, the case of the relay's only
  call: Go then trims byte by byte, first on the right, then on the left.
\<close>

definition TrimRight :: "string \<Rightarrow> string \<Rightarrow> string" where
  "TrimRight s cutset = rev (dropWhile (\<lambda>c. c \<in> set cutset) (rev s))"

definition TrimLeft :: "string \<Rightarrow> string \<Rightarrow> string" where
  "TrimLeft s cutset = dropWhile (\<lambda>c. c \<in> set cutset) s"

definition Trim :: "string \<Rightarrow> string \<Rightarrow> string" where
  "Trim s cutset = (if s = [] \<or> cutset = [] then s else TrimLeft (TrimRight s cutset) cutset)"

text \<open>\<open>strconv.FormatInt(i, 10)\<close>.\<close>

fun formatBits :: "nat \<Rightarrow> string" where
  "formatBits n =
     (if n < 10 then [''0123456789'' ! n]
      else formatBits (n div 10) @ [''0123456789'' ! (n mod 10)])"

definition FormatInt :: "int \<Rightarrow> string" where
  "FormatInt i = (if i < 0 then CHR ''-'' # formatBits (nat (- i)) else formatBits (nat i))"

subsection \<open>Messages, session, collaborators\<close>

record stratumRequest =
  reqID :: string
  reqJsonRpc :: string
  reqMethod :: string
  Params :: gomap

record stratumResponse =
  resID :: string
  resJsonRpc :: string
  resMethod :: string
  Result :: dyn
  Error :: gomap

text \<open>
  The session. \<open>difficulty\<close> is an int64 that is only copied, so it is kept as its value.
  The field \<open>ctx\<close> is never assigned in the source; the connection's context is the local
  \<open>ctx\<close> of \<open>handleConn\<close>, whose cancellation is the effect \<open>Cancel\<close> below.
\<close>

record minerSession =
  login :: string
  agent :: string
  difficulty :: int

definition hasNotLoggedIn :: "minerSession \<Rightarrow> bool" where
  "hasNotLoggedIn ms = (login ms = '''')"

text \<open>The answers of \<open>database.verifyMiner\<close>; the constants are declared with the database.\<close>

datatype verifyResult = wrongPassword | noPassword | correctPassword

text \<open>
  An error value as the read loop inspects it: a \<open>*net.OpError\<close> with the text of its inner
  \<open>Err\<close>, or any other error with its own text.
\<close>

datatype goError = OpError string | OtherError string

definition ECONNRESET_Error :: string where
  "ECONNRESET_Error = ''connection reset by peer''"

text \<open>The part of \<open>config\<close> that the stratum server reads.\<close>

record config =
  Diff :: int
  OmitAgentStatus :: "string list"

text \<open>
  What the relay calls and this file does not define: \<open>strings.TrimSpace\<close>,
  \<open>json.Unmarshal\<close> into a request (\<open>None\<close> when it returns an error) and into a response
  (the struct as the call leaves it, the error being dropped by the caller),
  \<open>database.verifyMiner\<close> and \<open>conn.RemoteAddr()\<close>.
\<close>

record extern =
  TrimSpace :: "string \<Rightarrow> string"
  UnmarshalRequest :: "string \<Rightarrow> stratumRequest option"
  UnmarshalResponse :: "string \<Rightarrow> stratumResponse"
  verifyMiner :: "string \<Rightarrow> string \<Rightarrow> verifyResult"
  RemoteAddr :: string

subsection \<open>Effects\<close>

datatype level = LogInfo | LogWarning | LogError

datatype logarg = Str string | ErrArg goError | MapArg gomap

datatype effect =
    Log level "logarg list"
  | InitNodeStratumClient
  | GoRegisterHandler
  | ConnWrite string
  | ConnEncode string
  | NodeEncode string
  | NodeEncodeRequest stratumRequest
  | GoCallStatusPerInterval
  | RegisterMiner string string string
  | PutShare string string int
  | PutBlockHash string
  | SetMinerAgentStatus string string int gomap
  | NodeClose
  | Cancel
  | ConnClose

text \<open>
  \<open>ConnWrite\<close> is \<open>conn.Write\<close> on the miner socket, \<open>ConnEncode\<close> the push handler's
  \<open>Encode\<close> on the miner socket, \<open>NodeEncode\<close> the call \<open>nc.enc.Encode(jsonRaw)\<close> with the
  frame it is given, \<open>NodeEncodeRequest\<close> the heartbeat's \<open>Encode\<close> of a request on \<open>nc.c\<close>,
  \<open>GoCallStatusPerInterval\<close> the statement \<open>go callStatusPerInterval(ctx, nc)\<close>.
\<close>

subsection \<open>Classification of pushed responses\<close>

definition handleMethod :: "minerSession \<Rightarrow> stratumResponse \<Rightarrow> effect list" where
  "handleMethod ms res =
     (if resMethod res = ''status'' then
        (if login ms = '''' then [Log LogWarning [Str ''recv status detail before login'']]
         else
           (let result = fst (assertMap (Result res))
            in [SetMinerAgentStatus (login ms) (agent ms) (difficulty ms) result]))
      else if resMethod res = ''submit'' then
        (if Error res \<noteq> None then
           [Log LogWarning [Str (login ms), Str '''s share has err: '', MapArg (Error res)]]
         else
           (let (detail, ok) = assertString (Result res)
            in Log LogInfo [Str (login ms), Str '' has submit a '', Str detail, Str '' share''] #
               (if ok then
                  PutShare (login ms) (agent ms) (difficulty ms) #
                  (if Contains detail ''block'' then
                     (let blockHash = Trim detail ''block - ''
                      in [PutBlockHash blockHash,
                          Log LogWarning [Str ''block '', Str blockHash,
                                          Str '' has been found by '', Str (login ms)]])
                   else [])
                else [])))
      else [])"

text \<open>
  The callback registered on the node client: forward the pushed message to the miner,
  log a failed write, decode it (dropping the decoder's error) and classify it.
  \<open>encErr\<close> is what \<open>enc.Encode(sr)\<close> returned.
\<close>

definition pushHandler :: "extern \<Rightarrow> minerSession \<Rightarrow> string \<Rightarrow> goError option \<Rightarrow> effect list" where
  "pushHandler ext ms sr encErr =
     ConnEncode sr #
     (case encErr of None \<Rightarrow> [] | Some err \<Rightarrow> [Log LogError [ErrArg err]]) @
     handleMethod ms (UnmarshalResponse ext sr)"

subsection \<open>The heartbeat\<close>

definition statusReq :: stratumRequest where
  "statusReq = \<lparr>reqID = ''0'', reqJsonRpc = ''2.0'', reqMethod = ''status'', Params = None\<rparr>"

text \<open>\<open>time.Second\<close> as a \<open>time.Duration\<close>, a count of nanoseconds.\<close>

definition Second :: int where
  "Second = 1000000000"

text \<open>
  One \<open>select\<close> of the heartbeat loop takes either the ticker's case, and then
  \<open>enc.Encode(statusReq)\<close> returns an error or nil, or the case \<open>ctx.Done()\<close>.
\<close>

datatype selected = Tick "goError option" | Done

text \<open>
  The state of a goroutine after the \<open>select\<close>s it has been given: still in its loop, or
  returned; each with what it has done.
\<close>

datatype task = Running "effect list" | Returned "effect list"

fun statusLoop :: "selected list \<Rightarrow> effect list \<Rightarrow> task" where
  "statusLoop [] sent = Running sent"
| "statusLoop (Done # rest) sent = Returned sent"
| "statusLoop (Tick err # rest) sent =
     statusLoop rest
       (sent @ NodeEncodeRequest statusReq #
          (case err of None \<Rightarrow> [] | Some e \<Rightarrow> [Log LogError [ErrArg e]]))"

text \<open>
  \<open>callStatusPerInterval\<close>: \<open>selects d\<close> is the sequence of cases that become ready for
  its \<open>select\<close>, in their order, when the ticker channel is \<open>time.Tick(d)\<close>; the loop
  takes them one after the other until it returns.
\<close>

definition callStatusPerInterval :: "(int \<Rightarrow> selected list) \<Rightarrow> task" where
  "callStatusPerInterval selects = statusLoop (selects (10 * Second)) []"

subsection \<open>The connection handler\<close>

text \<open>The bytes of the raw string literal that \<open>handleConn\<close> writes after a wrong password.\<close>

definition loginErrorReply :: string where
  \<open>loginErrorReply =
     ''{  '' @ [CHR 0x0A] @
     ''   "id":"5",'' @ [CHR 0x0A] @
     ''   "jsonrpc":"2.0",'' @ [CHR 0x0A] @
     ''   "method":"login",'' @ [CHR 0x0A] @
     ''   "error":{  '' @ [CHR 0x0A] @
     ''      "code":-32500,'' @ [CHR 0x0A] @
     ''      "message":"login incorrect"'' @ [CHR 0x0A] @
     ''   }'' @ [CHR 0x0A] @
     ''}''\<close>

text \<open>
  The state of \<open>handleConn\<close>: the session, the local variable \<open>login\<close> (declared before
  the loop, so it survives an iteration) and the effects so far.
\<close>

record connState =
  session :: minerSession
  loginVar :: string
  trace :: "effect list"

definition emit :: "effect list \<Rightarrow> connState \<Rightarrow> connState" where
  "emit es st = st\<lparr>trace := trace st @ es\<rparr>"

text \<open>
  One pass of the read loop gets what \<open>dec.Decode(&jsonRaw)\<close> returned and left in the
  fresh \<open>jsonRaw\<close>, and the number \<open>rand.Int63()\<close> returns if the pass calls it.
\<close>

record readEvent =
  readErr :: "goError option"
  jsonRaw :: string
  randInt63 :: int

text \<open>The loop over \<open>OmitAgentStatus\<close> that computes \<open>requireCallStatus\<close>.\<close>

fun requireCallStatus :: "string \<Rightarrow> string list \<Rightarrow> bool" where
  "requireCallStatus agent' [] = True"
| "requireCallStatus agent' (omitSubstr # rest) =
     (if Contains agent' omitSubstr then False else requireCallStatus agent' rest)"

text \<open>The case \<open>"login"\<close> of the switch on the request's method.\<close>

definition loginCase :: "extern \<Rightarrow> config \<Rightarrow> readEvent \<Rightarrow> stratumRequest \<Rightarrow> connState \<Rightarrow> connState" where
  "loginCase ext conf ev clientReq st =
     (let login0 = TrimSpace ext (fst (assertString (index (Params clientReq) ''login'')));
          pass = TrimSpace ext (fst (assertString (index (Params clientReq) ''pass'')));
          agent0 = TrimSpace ext (fst (assertString (index (Params clientReq) ''agent'')));
          agent1 = (if agent0 = '''' then ''NoNameMiner'' @ FormatInt (randInt63 ev) else agent0);
          (login1, es) =
            (case verifyMiner ext login0 pass of
               wrongPassword \<Rightarrow>
                 ('''', [Log LogWarning [Str login0, Str '' has failed to login''],
                       ConnWrite loginErrorReply])
             | noPassword \<Rightarrow>
                 (login0, [RegisterMiner login0 pass '''',
                           Log LogInfo [Str login0, Str '' has registered in'']])
             | correctPassword \<Rightarrow> (login0, []));
          go = (if requireCallStatus agent1 (OmitAgentStatus conf)
                then [GoCallStatusPerInterval] else [])
      in \<lparr>session = (session st)\<lparr>login := login1, agent := agent1\<rparr>,
          loginVar = login1,
          trace = trace st @ es @ go @
            [Log LogInfo [Str login1, Str '''s '', Str agent1, Str '' has logged in''],
             NodeEncode (jsonRaw ev)]\<rparr>)"

text \<open>The switch on the method of a request that was parsed.\<close>

definition dispatch :: "extern \<Rightarrow> config \<Rightarrow> readEvent \<Rightarrow> stratumRequest \<Rightarrow> connState \<Rightarrow> connState" where
  "dispatch ext conf ev clientReq st =
     (let st1 = emit [Log LogInfo [Str (RemoteAddr ext), Str '' sends a '',
                                   Str (reqMethod clientReq), Str '' request:'',
                                   Str (jsonRaw ev)]] st
      in if reqMethod clientReq = ''login'' then loginCase ext conf ev clientReq st1
         else emit ((if hasNotLoggedIn (session st1)
                     then [Log LogWarning [Str (loginVar st1), Str '' has not logged in'']]
                     else []) @
                    [NodeEncode (jsonRaw ev)]) st1)"

datatype outcome = Continue connState | Return connState

text \<open>The loop body from the test of the frame's length on.\<close>

definition afterDecode :: "extern \<Rightarrow> config \<Rightarrow> readEvent \<Rightarrow> connState \<Rightarrow> outcome" where
  "afterDecode ext conf ev st =
     (if length (jsonRaw ev) = 0 then Return st
      else (case UnmarshalRequest ext (jsonRaw ev) of
              None \<Rightarrow> Continue st
            | Some clientReq \<Rightarrow> Continue (dispatch ext conf ev clientReq st)))"

text \<open>One pass of the read loop: \<open>Return\<close> leaves \<open>handleConn\<close>, \<open>Continue\<close> reads again.\<close>

definition iteration :: "extern \<Rightarrow> config \<Rightarrow> readEvent \<Rightarrow> connState \<Rightarrow> outcome" where
  "iteration ext conf ev st =
     (case readErr ev of
        None \<Rightarrow> afterDecode ext conf ev st
      | Some (OpError msg) \<Rightarrow>
          if msg = ECONNRESET_Error then Return st else afterDecode ext conf ev st
      | Some (OtherError msg) \<Rightarrow>
          afterDecode ext conf ev (emit [Log LogError [ErrArg (OtherError msg)]] st))"

text \<open>
  The read loop on the reads that have happened so far: \<open>Continue\<close> when it waits in
  \<open>dec.Decode\<close> for the next one.
\<close>

fun readLoop :: "extern \<Rightarrow> config \<Rightarrow> readEvent list \<Rightarrow> connState \<Rightarrow> outcome" where
  "readLoop ext conf [] st = Continue st"
| "readLoop ext conf (ev # evs) st =
     (case iteration ext conf ev st of
        Return st' \<Rightarrow> Return st'
      | Continue st' \<Rightarrow> readLoop ext conf evs st')"

text \<open>
  \<open>handleConn\<close>: the set-up, the loop, and on return the deferred calls in reverse order of
  their \<open>defer\<close> statements.
\<close>

definition newConn :: "extern \<Rightarrow> config \<Rightarrow> connState" where
  "newConn ext conf =
     \<lparr>session = \<lparr>login = '''', agent = '''', difficulty = Diff conf\<rparr>,
      loginVar = '''',
      trace = [Log LogInfo [Str ''new conn from '', Str (RemoteAddr ext)],
               InitNodeStratumClient, GoRegisterHandler]\<rparr>"

definition handleConn :: "extern \<Rightarrow> config \<Rightarrow> readEvent list \<Rightarrow> outcome" where
  "handleConn ext conf evs =
     (case readLoop ext conf evs (newConn ext conf) of
        Return st \<Rightarrow> Return (emit [NodeClose, Cancel, ConnClose] st)
      | Continue st \<Rightarrow> Continue st)"

subsection \<open>The encoder on the node's connection\<close>

text \<open>
  Frames go to the node through \<open>nc.enc\<close>. The node client is declared in another file;
  \<open>enc\<close> is taken to be the \<open>json.Encoder\<close> on the node's connection, like the two
  encoders that this file makes itself. \<open>Encode\<close> on a \<open>json.RawMessage\<close> takes the bytes
  of the message, compacts them with HTML escaping on, appends a line feed and writes the
  result; the caller drops the error it returns.

  \<open>appendCompact\<close> is the compaction of a valid JSON text, which is what the decoder
  delivers. The flag says whether the position is inside a string literal. Outside string
  literals white space is dropped; everywhere the characters less-than, greater-than and
  ampersand and the line separators U+2028 and U+2029 (in UTF-8 the bytes E2 80 A8 and
  E2 80 A9) become escapes of six characters, a backslash, the letter u and four
  hexadecimal digits.
\<close>

definition isSpace :: "char \<Rightarrow> bool" where
  "isSpace c = (c = CHR '' '' \<or> c = CHR 0x09 \<or> c = CHR 0x0D \<or> c = CHR 0x0A)"

fun appendCompact :: "bool \<Rightarrow> string \<Rightarrow> string" where
  "appendCompact inString [] = []"
| "appendCompact inString (c # cs) =
     (if c = CHR ''<'' then CHR 0x5C # ''u003c'' @ appendCompact inString cs
      else if c = CHR ''>'' then CHR 0x5C # ''u003e'' @ appendCompact inString cs
      else if c = CHR ''&'' then CHR 0x5C # ''u0026'' @ appendCompact inString cs
      else if c = CHR 0xE2 then
        (case cs of
           c1 # c2 # rest \<Rightarrow>
             if c1 = CHR 0x80 \<and> c2 = CHR 0xA8 then CHR 0x5C # ''u2028'' @ appendCompact inString rest
             else if c1 = CHR 0x80 \<and> c2 = CHR 0xA9 then CHR 0x5C # ''u2029'' @ appendCompact inString rest
             else c # appendCompact inString cs
         | _ \<Rightarrow> c # appendCompact inString cs)
      else if inString then
        (if c = CHR 0x5C then
           (case cs of [] \<Rightarrow> [c] | e # rest \<Rightarrow> c # e # appendCompact True rest)
         else if c = CHR 0x22 then c # appendCompact False cs
         else c # appendCompact True cs)
      else if isSpace c then appendCompact False cs
      else if c = CHR 0x22 then c # appendCompact True cs
      else c # appendCompact False cs)"

text \<open>What \<open>Encode\<close> writes for a \<open>json.RawMessage\<close>.\<close>

definition EncodeRawMessage :: "string \<Rightarrow> string" where
  "EncodeRawMessage raw = appendCompact False raw @ [CHR 0x0A]"

section \<open>Vocabulary of the properties\<close>

text \<open>The calls that write to the database.\<close>

fun recording :: "effect \<Rightarrow> bool" where
  "recording (RegisterMiner l p c) = True"
| "recording (PutShare l a d) = True"
| "recording (PutBlockHash h) = True"
| "recording (SetMinerAgentStatus l a d m) = True"
| "recording _ = False"

definition isPutBlockHash :: "effect \<Rightarrow> bool" where
  "isPutBlockHash e = (case e of PutBlockHash h \<Rightarrow> True | _ \<Rightarrow> False)"

text \<open>The characters of the cutset that \<open>handleMethod\<close> gives to \<open>strings.Trim\<close>.\<close>

definition blockCutset :: "char set" where
  "blockCutset = {CHR ''b'', CHR ''l'', CHR ''o'', CHR ''c'', CHR ''k'', CHR ''-'', CHR '' ''}"

text \<open>What is sent to the node, and what is sent to the miner.\<close>

fun toNode :: "effect \<Rightarrow> bool" where
  "toNode (NodeEncode raw) = True"
| "toNode (NodeEncodeRequest req) = True"
| "toNode _ = False"

fun toMiner :: "effect \<Rightarrow> bool" where
  "toMiner (ConnWrite bs) = True"
| "toMiner (ConnEncode sr) = True"
| "toMiner _ = False"

definition stateOf :: "outcome \<Rightarrow> connState" where
  "stateOf out = (case out of Continue st \<Rightarrow> st | Return st \<Rightarrow> st)"

text \<open>The effects that lead from the trace of \<open>st\<close> to the longer trace of \<open>st'\<close>.\<close>

definition newEffects :: "connState \<Rightarrow> connState \<Rightarrow> effect list" where
  "newEffects st st' = drop (length (trace st)) (trace st')"

text \<open>A parameter of a login request as the login case reads it: asserted a string, then trimmed.\<close>

definition param :: "extern \<Rightarrow> stratumRequest \<Rightarrow> string \<Rightarrow> string" where
  "param ext req k = TrimSpace ext (fst (assertString (index (Params req) k)))"

text \<open>The agent name that the login case commits.\<close>

definition agentOf :: "extern \<Rightarrow> readEvent \<Rightarrow> stratumRequest \<Rightarrow> string" where
  "agentOf ext ev req =
     (if param ext req ''agent'' = '''' then ''NoNameMiner'' @ FormatInt (randInt63 ev)
      else param ext req ''agent'')"

text \<open>The request that a pass of the read loop dispatches, if it dispatches one.\<close>

definition handledRequest :: "extern \<Rightarrow> readEvent \<Rightarrow> stratumRequest option" where
  "handledRequest ext ev =
     (if readErr ev = Some (OpError ECONNRESET_Error) \<or> jsonRaw ev = [] then None
      else UnmarshalRequest ext (jsonRaw ev))"

text \<open>The number of \<open>go callStatusPerInterval\<close> statements executed so far.\<close>

definition heartbeatsStarted :: "connState \<Rightarrow> nat" where
  "heartbeatsStarted st = length (filter (\<lambda>e. e = GoCallStatusPerInterval) (trace st))"

text \<open>What the read loop logs for a read error that does not make it return.\<close>

definition errorLog :: "goError \<Rightarrow> effect list" where
  "errorLog e = (case e of OpError msg \<Rightarrow> [] | OtherError msg \<Rightarrow> [Log LogError [ErrArg e]])"

text \<open>Whether \<open>handleConn\<close> has returned.\<close>

fun returned :: "outcome \<Rightarrow> bool" where
  "returned (Return st) = True"
| "returned (Continue st) = False"


text \<open>
  The bytes that the relay calls of a list of effects write to the node's connection, and
  the characters that the compaction of the encoder leaves alone wherever they stand.
\<close>

fun bytesToNode :: "effect \<Rightarrow> string" where
  "bytesToNode (NodeEncode raw) = EncodeRawMessage raw"
| "bytesToNode _ = []"

definition relayedBytes :: "effect list \<Rightarrow> string" where
  "relayedBytes es = concat (map bytesToNode es)"

definition plainChar :: "char \<Rightarrow> bool" where
  "plainChar c =
     (\<not> isSpace c \<and> c \<noteq> CHR ''<'' \<and> c \<noteq> CHR ''>'' \<and> c \<noteq> CHR ''&'' \<and> c \<noteq> CHR 0xE2)"

text \<open>Whether a goroutine is still in its loop, and what a heartbeat does on one tick.\<close>

fun isRunning :: "task \<Rightarrow> bool" where
  "isRunning (Running sent) = True"
| "isRunning (Returned sent) = False"


text \<open>The login error reply as the specification prints it, on one line.\<close>

definition spec_loginErrorReply :: string where
  \<open>spec_loginErrorReply =
     ''{"id":"5","jsonrpc":"2.0","method":"login","error":{"code":-32500,"message":"login incorrect"}}''\<close>

section \<open>The connection together with its heartbeats\<close>

text \<open>
  \<open>handleConn\<close> and the heartbeats it starts run side by side. What happens to a
  connection is a sequence of two kinds of events: the decoder of the read loop delivers a
  read, or a ticker delivers a tick to the heartbeat that listens to it. \<open>Fire n d err\<close>
  is a tick of the ticker \<open>time.Tick(d)\<close> of the heartbeat started as number \<open>n\<close>, and
  \<open>err\<close> is what the \<open>Encode\<close> returns that the heartbeat then calls. A goroutine reacts
  to an event before the next event happens, so that between two events every heartbeat
  waits in its \<open>select\<close>.

  A heartbeat is kept as the cases that have become ready for its \<open>select\<close>, in their
  order, for every period that its ticker could have; \<open>callStatusPerInterval\<close> goes through
  those of the period it asks for. The deferred \<open>cancel()\<close> closes \<open>ctx.Done()\<close>: that
  case then becomes ready for every heartbeat. A tick delivered after that finds the loop
  returned. A read delivered after \<open>handleConn\<close> has returned finds no reader.
\<close>

type_synonym selects = "int \<Rightarrow> selected list"

record connection =
  handler :: outcome
  heartbeats :: "selects list"

datatype happening = Read readEvent | Fire nat int "goError option"

definition accepted :: "extern \<Rightarrow> config \<Rightarrow> connection" where
  "accepted ext conf = \<lparr>handler = Continue (newConn ext conf), heartbeats = []\<rparr>"

definition happen :: "extern \<Rightarrow> config \<Rightarrow> happening \<Rightarrow> connection \<Rightarrow> connection" where
  "happen ext conf h c =
     (case h of
        Read ev \<Rightarrow>
          (case handler c of
             Return st \<Rightarrow> c
           | Continue st \<Rightarrow>
               (case iteration ext conf ev st of
                  Continue st' \<Rightarrow>
                    \<lparr>handler = Continue st',
                     heartbeats = heartbeats c @
                       replicate (heartbeatsStarted st' - heartbeatsStarted st) (\<lambda>d. [])\<rparr>
                | Return st' \<Rightarrow>
                    \<lparr>handler = Return (emit [NodeClose, Cancel, ConnClose] st'),
                     heartbeats = map (\<lambda>s d. s d @ [Done]) (heartbeats c)\<rparr>))
      | Fire n d err \<Rightarrow>
          (if n < length (heartbeats c)
           then c\<lparr>heartbeats :=
                    (heartbeats c)[n := (heartbeats c ! n)(d := (heartbeats c ! n) d @ [Tick err])]\<rparr>
           else c))"

fun run :: "extern \<Rightarrow> config \<Rightarrow> happening list \<Rightarrow> connection \<Rightarrow> connection" where
  "run ext conf [] c = c"
| "run ext conf (h # hs) c = run ext conf hs (happen ext conf h c)"

text \<open>The heartbeats of a connection as goroutines, and whether its context is cancelled.\<close>

definition heartbeatTasks :: "connection \<Rightarrow> task list" where
  "heartbeatTasks c = map callStatusPerInterval (heartbeats c)"

definition cancelled :: "connection \<Rightarrow> bool" where
  "cancelled c = (Cancel \<in> set (trace (stateOf (handler c))))"

text \<open>The reads among the events.\<close>

fun reads :: "happening list \<Rightarrow> readEvent list" where
  "reads [] = []"
| "reads (Read ev # hs) = ev # reads hs"
| "reads (Fire n d err # hs) = reads hs"

text \<open>
  What holds of a connection whatever has happened to it: it has as many heartbeats as
  \<open>go\<close> statements were executed, its context is cancelled exactly when \<open>handleConn\<close> has
  returned, and \<open>ctx.Done()\<close> has become ready for its heartbeats exactly then.
\<close>

definition consistent :: "connection \<Rightarrow> bool" where
  "consistent c \<longleftrightarrow>
     length (heartbeats c) = heartbeatsStarted (stateOf (handler c)) \<and>
     (cancelled c \<longleftrightarrow> returned (handler c)) \<and>
     (\<forall>s \<in> set (heartbeats c). \<forall>d. Done \<in> set (s d) \<longleftrightarrow> returned (handler c))"

section \<open>A sample deployment\<close>

text \<open>
  Concrete collaborators on which the properties below are run: a store that knows
  \<open>alice\<close> and \<open>bob\<close>, frames of a miner with their decoded requests, messages of the node
  with their decoded responses, and a configuration that omits the status poll for agents
  whose name contains \<open>monitor\<close>.
\<close>

definition asciiTrimSpace :: "string \<Rightarrow> string" where
  "asciiTrimSpace s =
     TrimLeft (TrimRight s [CHR 0x09, CHR 0x0A, CHR 0x0B, CHR 0x0C, CHR 0x0D, CHR '' ''])
       [CHR 0x09, CHR 0x0A, CHR 0x0B, CHR 0x0C, CHR 0x0D, CHR '' '']"

definition frameLoginAlice :: string where
  \<open>frameLoginAlice = ''{"id":"1","method":"login","params":{"login":" alice ","pass":"secret","agent":"rig1"}}''\<close>

definition frameLoginBob :: string where
  \<open>frameLoginBob = ''{"id":"2","method":"login","params":{"login":"bob","pass":"pw","agent":"rig2"}}''\<close>

definition frameLoginWrong :: string where
  \<open>frameLoginWrong = ''{"id":"3","method":"login","params":{"login":"alice","pass":"nope","agent":"rig1"}}''\<close>

definition frameLoginMonitor :: string where
  \<open>frameLoginMonitor = ''{"id":"4","method":"login","params":{"login":"alice","pass":"secret","agent":"monitor-7"}}''\<close>

definition frameGetJob :: string where
  \<open>frameGetJob = ''{"id":"5","method":"getjobtemplate","params":null}''\<close>

text \<open>The request for a job once more, as a miner sends it that puts a space after each comma.\<close>

definition frameGetJobSpaced :: string where
  \<open>frameGetJobSpaced = ''{"id":"5", "method":"getjobtemplate", "params":null}''\<close>

definition loginRequest :: "string \<Rightarrow> string \<Rightarrow> string \<Rightarrow> string \<Rightarrow> stratumRequest" where
  "loginRequest i l p a =
     \<lparr>reqID = i, reqJsonRpc = '''', reqMethod = ''login'',
      Params = Some [''login'' \<mapsto> DString l, ''pass'' \<mapsto> DString p, ''agent'' \<mapsto> DString a]\<rparr>"

definition sampleUnmarshalRequest :: "string \<Rightarrow> stratumRequest option" where
  "sampleUnmarshalRequest raw =
     (if raw = frameLoginAlice then Some (loginRequest ''1'' '' alice '' ''secret'' ''rig1'')
      else if raw = frameLoginBob then Some (loginRequest ''2'' ''bob'' ''pw'' ''rig2'')
      else if raw = frameLoginWrong then Some (loginRequest ''3'' ''alice'' ''nope'' ''rig1'')
      else if raw = frameLoginMonitor then Some (loginRequest ''4'' ''alice'' ''secret'' ''monitor-7'')
      else if raw = frameGetJob \<or> raw = frameGetJobSpaced then
        Some \<lparr>reqID = ''5'', reqJsonRpc = '''', reqMethod = ''getjobtemplate'', Params = None\<rparr>
      else None)"

definition pushBlock :: string where
  \<open>pushBlock = ''{"id":"6","method":"submit","result":"blockfound - 2a1c"}''\<close>

definition pushSubmitError :: string where
  \<open>pushSubmitError = ''{"id":"7","method":"submit","error":{"message":"too late"}}''\<close>

definition pushSubmitOdd :: string where
  \<open>pushSubmitOdd = ''{"id":"8","method":"submit","result":true}''\<close>

definition pushStatusOdd :: string where
  \<open>pushStatusOdd = ''{"id":"0","method":"status","result":"ok"}''\<close>

definition sampleUnmarshalResponse :: "string \<Rightarrow> stratumResponse" where
  "sampleUnmarshalResponse sr =
     (if sr = pushBlock then
        \<lparr>resID = ''6'', resJsonRpc = '''', resMethod = ''submit'',
         Result = DString ''blockfound - 2a1c'', Error = None\<rparr>
      else if sr = pushSubmitError then
        \<lparr>resID = ''7'', resJsonRpc = '''', resMethod = ''submit'',
         Result = DNil, Error = Some [''message'' \<mapsto> DString ''too late'']\<rparr>
      else if sr = pushSubmitOdd then
        \<lparr>resID = ''8'', resJsonRpc = '''', resMethod = ''submit'',
         Result = DBool True, Error = None\<rparr>
      else if sr = pushStatusOdd then
        \<lparr>resID = ''0'', resJsonRpc = '''', resMethod = ''status'',
         Result = DString ''ok'', Error = None\<rparr>
      else \<lparr>resID = '''', resJsonRpc = '''', resMethod = '''', Result = DNil, Error = None\<rparr>)"

definition sampleVerifyMiner :: "string \<Rightarrow> string \<Rightarrow> verifyResult" where
  "sampleVerifyMiner l p =
     (if l = ''alice'' then (if p = ''secret'' then correctPassword else wrongPassword)
      else if l = ''bob'' then (if p = ''pw'' then correctPassword else wrongPassword)
      else noPassword)"

definition sampleExt :: extern where
  "sampleExt =
     \<lparr>TrimSpace = asciiTrimSpace,
      UnmarshalRequest = sampleUnmarshalRequest,
      UnmarshalResponse = sampleUnmarshalResponse,
      verifyMiner = sampleVerifyMiner,
      RemoteAddr = ''10.0.0.7:51000''\<rparr>"

definition sampleConf :: config where
  "sampleConf = \<lparr>Diff = 1, OmitAgentStatus = [''monitor'']\<rparr>"

definition frameRead :: "string \<Rightarrow> readEvent" where
  "frameRead raw = \<lparr>readErr = None, jsonRaw = raw, randInt63 = 4037200794235010051\<rparr>"

definition failedRead :: "goError \<Rightarrow> readEvent" where
  "failedRead e = \<lparr>readErr = Some e, jsonRaw = [], randInt63 = 4037200794235010051\<rparr>"

definition sampleSession :: minerSession where
  "sampleSession = \<lparr>login = ''alice'', agent = ''rig1'', difficulty = 1\<rparr>"

section \<open>Lemmas on the model\<close>


lemma trace_emit [simp]: "trace (emit es st) = trace st @ es"
  by (simp add: emit_def)

lemma session_emit [simp]: "session (emit es st) = session st"
  by (simp add: emit_def)

lemma loginVar_emit [simp]: "loginVar (emit es st) = loginVar st"
  by (simp add: emit_def)

lemma filter_recording_encErr [simp]:
  "filter recording (case encErr of None \<Rightarrow> [] | Some err \<Rightarrow> [Log LogError [ErrArg err]]) = []"
  by (cases encErr) simp_all

lemma loginCase_session:
  "session (loginCase ext conf ev req st) =
     (session st)\<lparr>login := (if verifyMiner ext (param ext req ''login'') (param ext req ''pass'') = wrongPassword
                              then '''' else param ext req ''login''),
                   agent := agentOf ext ev req\<rparr>"
  by (simp add: loginCase_def Let_def param_def agentOf_def split: verifyResult.splits)

lemma loginCase_trace:
  "trace (loginCase ext conf ev req st) =
     trace st @
     (case verifyMiner ext (param ext req ''login'') (param ext req ''pass'') of
        wrongPassword \<Rightarrow>
          [Log LogWarning [Str (param ext req ''login''), Str '' has failed to login''],
           ConnWrite loginErrorReply]
      | noPassword \<Rightarrow>
          [RegisterMiner (param ext req ''login'') (param ext req ''pass'') '''',
           Log LogInfo [Str (param ext req ''login''), Str '' has registered in'']]
      | correctPassword \<Rightarrow> []) @
     (if requireCallStatus (agentOf ext ev req) (OmitAgentStatus conf)
      then [GoCallStatusPerInterval] else []) @
     [Log LogInfo [Str (if verifyMiner ext (param ext req ''login'') (param ext req ''pass'') = wrongPassword
                        then '''' else param ext req ''login''),
                   Str '''s '', Str (agentOf ext ev req), Str '' has logged in''],
      NodeEncode (jsonRaw ev)]"
  by (simp add: loginCase_def Let_def param_def agentOf_def split: verifyResult.splits)

text \<open>A pass of the read loop, by what it does: return, skip the frame, or dispatch a request.\<close>

lemma iteration_handled:
  "iteration ext conf ev st =
     (if readErr ev = Some (OpError ECONNRESET_Error) then Return st
      else
        (let st1 = emit (case readErr ev of
                           Some (OtherError msg) \<Rightarrow> [Log LogError [ErrArg (OtherError msg)]]
                         | _ \<Rightarrow> []) st
         in if jsonRaw ev = [] then Return st1
            else (case handledRequest ext ev of
                    None \<Rightarrow> Continue st1
                  | Some req \<Rightarrow> Continue (dispatch ext conf ev req st1))))"
  by (auto simp: iteration_def afterDecode_def handledRequest_def Let_def emit_def
           split: option.splits goError.splits)

text \<open>What \<open>Trim\<close> cuts off lies in the cutset, and what it leaves neither starts nor ends in it.\<close>

lemma TrimRight_decomp:
  "\<exists>suf. s = TrimRight s cs @ suf \<and> set suf \<subseteq> set cs \<and>
         (TrimRight s cs = [] \<or> last (TrimRight s cs) \<notin> set cs)"
proof -
  let ?P = "\<lambda>c. c \<in> set cs"
  have "rev s = takeWhile ?P (rev s) @ dropWhile ?P (rev s)" by simp
  then have "s = rev (dropWhile ?P (rev s)) @ rev (takeWhile ?P (rev s))"
    by (metis rev_append rev_rev_ident)
  moreover have "set (rev (takeWhile ?P (rev s))) \<subseteq> set cs"
    by (auto dest: set_takeWhileD)
  moreover have "dropWhile ?P (rev s) \<noteq> [] \<Longrightarrow> last (rev (dropWhile ?P (rev s))) \<notin> set cs"
    using hd_dropWhile [of ?P "rev s"] by (simp add: last_rev)
  ultimately show ?thesis unfolding TrimRight_def by blast
qed

lemma TrimLeft_decomp:
  "\<exists>pre. t = pre @ TrimLeft t cs \<and> set pre \<subseteq> set cs \<and>
         (TrimLeft t cs = [] \<or> hd (TrimLeft t cs) \<notin> set cs)"
proof -
  let ?P = "\<lambda>c. c \<in> set cs"
  have "t = takeWhile ?P t @ dropWhile ?P t" by simp
  moreover have "set (takeWhile ?P t) \<subseteq> set cs" by (auto dest: set_takeWhileD)
  moreover have "dropWhile ?P t \<noteq> [] \<Longrightarrow> hd (dropWhile ?P t) \<notin> set cs"
    using hd_dropWhile [of ?P t] by simp
  ultimately show ?thesis unfolding TrimLeft_def by blast
qed

lemma Trim_decomp:
  "\<exists>pre suf. s = pre @ Trim s cs @ suf \<and> set pre \<subseteq> set cs \<and> set suf \<subseteq> set cs \<and>
     (Trim s cs = [] \<or> (hd (Trim s cs) \<notin> set cs \<and> last (Trim s cs) \<notin> set cs))"
proof (cases "s = [] \<or> cs = []")
  case True
  then have "Trim s cs = s" by (simp add: Trim_def)
  with True show ?thesis by (intro exI [of _ "[]"]) auto
next
  case False
  let ?t = "TrimRight s cs"
  let ?h = "TrimLeft ?t cs"
  from False have h: "Trim s cs = ?h" by (simp add: Trim_def)
  obtain suf where suf: "s = ?t @ suf" "set suf \<subseteq> set cs" "?t = [] \<or> last ?t \<notin> set cs"
    using TrimRight_decomp [of s cs] by blast
  obtain pre where pre: "?t = pre @ ?h" "set pre \<subseteq> set cs" "?h = [] \<or> hd ?h \<notin> set cs"
    using TrimLeft_decomp [of ?t cs] by blast
  have "?h \<noteq> [] \<Longrightarrow> last ?h \<notin> set cs"
  proof -
    assume ne: "?h \<noteq> []"
    then have "last ?t = last ?h" using pre(1) by (metis last_appendR)
    moreover have "?t \<noteq> []" using ne pre(1) by auto
    ultimately show ?thesis using suf(3) by simp
  qed
  moreover have "s = pre @ ?h @ suf" using suf(1) pre(1) by (metis append_assoc)
  ultimately show ?thesis using pre(2,3) suf(2) unfolding h by blast
qed


lemmas sample_push_defs =
  sampleExt_def sampleUnmarshalResponse_def pushBlock_def pushSubmitError_def
  pushSubmitOdd_def pushStatusOdd_def sampleSession_def

lemmas sample_frame_defs =
  sampleExt_def sampleUnmarshalRequest_def frameLoginAlice_def frameLoginBob_def
  frameLoginWrong_def frameLoginMonitor_def frameGetJob_def frameGetJobSpaced_def
  loginRequest_def
  frameRead_def failedRead_def

subsection \<open>The read loop\<close>

lemma stateOf_simps [simp]: "stateOf (Continue st) = st" "stateOf (Return st) = st"
  by (simp_all add: stateOf_def)

lemma newEffects_emit [simp]: "newEffects st (emit es st) = es"
  by (simp add: newEffects_def)

lemma dispatch_other:
  "reqMethod req \<noteq> ''login'' \<Longrightarrow>
   dispatch ext conf ev req st =
     emit (Log LogInfo [Str (RemoteAddr ext), Str '' sends a '', Str (reqMethod req),
                        Str '' request:'', Str (jsonRaw ev)] #
           (if login (session st) = ''''
            then [Log LogWarning [Str (loginVar st), Str '' has not logged in'']] else []) @
           [NodeEncode (jsonRaw ev)]) st"
  by (simp add: dispatch_def Let_def hasNotLoggedIn_def emit_def)

lemma dispatch_login:
  "reqMethod req = ''login'' \<Longrightarrow>
   dispatch ext conf ev req st =
     loginCase ext conf ev req
       (emit [Log LogInfo [Str (RemoteAddr ext), Str '' sends a '', Str (reqMethod req),
                           Str '' request:'', Str (jsonRaw ev)]] st)"
  by (simp add: dispatch_def Let_def)

lemma iteration_frame:
  assumes "readErr ev = None" and "jsonRaw ev \<noteq> []"
    and "UnmarshalRequest ext (jsonRaw ev) = Some req"
  shows "iteration ext conf ev st = Continue (dispatch ext conf ev req st)"
  using assms by (simp add: iteration_def afterDecode_def)

lemma handledRequest_SomeD:
  "handledRequest ext ev = Some req \<Longrightarrow>
     readErr ev \<noteq> Some (OpError ECONNRESET_Error) \<and> jsonRaw ev \<noteq> []"
  by (simp add: handledRequest_def split: if_splits)


subsection \<open>Heartbeats\<close>

lemma heartbeatsStarted_emit_log [simp]:
  "heartbeatsStarted (emit [Log lv args] st) = heartbeatsStarted st"
  by (simp add: heartbeatsStarted_def)

lemma heartbeatsStarted_emit_nil [simp]: "heartbeatsStarted (emit [] st) = heartbeatsStarted st"
  by (simp add: heartbeatsStarted_def)

lemma heartbeatsStarted_loginCase:
  "heartbeatsStarted (loginCase ext conf ev req st) =
     heartbeatsStarted st +
     (if requireCallStatus (agentOf ext ev req) (OmitAgentStatus conf) then 1 else 0)"
  by (simp add: heartbeatsStarted_def loginCase_trace split: verifyResult.splits)

lemma heartbeatsStarted_dispatch:
  "heartbeatsStarted (dispatch ext conf ev req st) =
     heartbeatsStarted st +
     (if reqMethod req = ''login'' \<and> requireCallStatus (agentOf ext ev req) (OmitAgentStatus conf)
      then 1 else 0)"
proof (cases "reqMethod req = ''login''")
  case True
  then show ?thesis by (simp add: dispatch_login heartbeatsStarted_loginCase)
next
  case False
  then show ?thesis by (simp add: dispatch_other heartbeatsStarted_def)
qed

lemma heartbeatsStarted_iteration:
  "heartbeatsStarted (stateOf (iteration ext conf ev st)) =
     heartbeatsStarted st +
     (case handledRequest ext ev of
        None \<Rightarrow> 0
      | Some req \<Rightarrow>
          if reqMethod req = ''login'' \<and>
             requireCallStatus (agentOf ext ev req) (OmitAgentStatus conf)
          then 1 else 0)"
proof (cases "handledRequest ext ev")
  case None
  then show ?thesis
    by (simp add: iteration_handled stateOf_def Let_def heartbeatsStarted_def
          split: option.splits goError.splits)
next
  case (Some req)
  have "heartbeatsStarted (emit (case readErr ev of
            Some (OtherError msg) \<Rightarrow> [Log LogError [ErrArg (OtherError msg)]] | _ \<Rightarrow> []) st) =
        heartbeatsStarted st"
    by (simp split: option.splits goError.splits)
  with Some handledRequest_SomeD [OF Some] show ?thesis
    by (simp add: iteration_handled stateOf_def Let_def heartbeatsStarted_dispatch)
qed

lemma handleConn_return:
  "handleConn ext conf evs = Return st \<Longrightarrow> \<exists>es. trace st = es @ [NodeClose, Cancel, ConnClose]"
  by (auto simp: handleConn_def split: outcome.splits)


subsection \<open>The encoder\<close>

lemma appendCompact_Cons_plain:
  "plainChar c \<Longrightarrow>
   appendCompact b (c # cs) =
     (if b then
        (if c = CHR 0x5C then
           (case cs of [] \<Rightarrow> [c] | e # rest \<Rightarrow> c # e # appendCompact True rest)
         else if c = CHR 0x22 then c # appendCompact False cs
         else c # appendCompact True cs)
      else if c = CHR 0x22 then c # appendCompact True cs
      else c # appendCompact False cs)"
  by (simp add: plainChar_def)

lemma appendCompact_plain:
  "\<forall>c \<in> set s. plainChar c \<Longrightarrow> appendCompact b s = s"
proof (induction s arbitrary: b rule: length_induct)
  case (1 s)
  show ?case
  proof (cases s)
    case Nil
    then show ?thesis by simp
  next
    case (Cons c cs)
    have pc: "plainChar c" and pcs: "\<forall>c \<in> set cs. plainChar c"
      using "1.prems" Cons by simp_all
    have ih: "\<And>t b'. length t \<le> length cs \<Longrightarrow> \<forall>c \<in> set t. plainChar c \<Longrightarrow> appendCompact b' t = t"
      using "1.IH" Cons by simp
    have cs: "\<And>b'. appendCompact b' cs = cs" using ih pcs by simp
    have rest: "\<And>e rest. cs = e # rest \<Longrightarrow> appendCompact True rest = rest"
      using ih pcs by simp
    show ?thesis
      unfolding Cons appendCompact_Cons_plain [OF pc]
      using cs rest by (cases cs) (simp_all del: appendCompact.simps(2))
  qed
qed

subsection \<open>The connection together with its heartbeats\<close>

lemma run_append: "run ext conf (hs @ hs') c = run ext conf hs' (run ext conf hs c)"
  by (induction hs arbitrary: c) simp_all


lemma statusLoop_isRunning: "isRunning (statusLoop xs sent) \<longleftrightarrow> Done \<notin> set xs"
proof (induction xs arbitrary: sent)
  case Nil
  show ?case by simp
next
  case (Cons x xs)
  show ?case by (cases x) (simp_all add: Cons.IH)
qed

lemma callStatusPerInterval_isRunning:
  "isRunning (callStatusPerInterval s) \<longleftrightarrow> Done \<notin> set (s (10 * Second))"
  by (simp add: callStatusPerInterval_def statusLoop_isRunning)

lemma Cancel_iteration:
  "Cancel \<in> set (trace (stateOf (iteration ext conf ev st))) \<longleftrightarrow> Cancel \<in> set (trace st)"
proof (cases "handledRequest ext ev")
  case None
  then show ?thesis
    by (auto simp: iteration_handled Let_def split: option.splits goError.splits)
next
  case (Some req)
  have e: "Cancel \<in> set (trace (emit (case readErr ev of
              Some (OtherError msg) \<Rightarrow> [Log LogError [ErrArg (OtherError msg)]] | _ \<Rightarrow> []) st))
           \<longleftrightarrow> Cancel \<in> set (trace st)"
    by (auto split: option.splits goError.splits)
  have d: "\<And>s. Cancel \<in> set (trace (dispatch ext conf ev req s)) \<longleftrightarrow> Cancel \<in> set (trace s)"
    by (cases "reqMethod req = ''login''")
       (auto simp: dispatch_login dispatch_other loginCase_trace split: verifyResult.splits)
  from Some handledRequest_SomeD [OF Some] show ?thesis
    by (simp add: iteration_handled Let_def d e)
qed

lemma iteration_Return_started:
  "iteration ext conf ev st = Return st' \<Longrightarrow> heartbeatsStarted st' = heartbeatsStarted st"
proof -
  assume r: "iteration ext conf ev st = Return st'"
  have "handledRequest ext ev = None"
  proof (cases "handledRequest ext ev")
    case None then show ?thesis .
  next
    case (Some req)
    with handledRequest_SomeD [OF Some] r show ?thesis
      by (simp add: iteration_handled Let_def)
  qed
  with heartbeatsStarted_iteration [of ext conf ev st] r show ?thesis by simp
qed

lemma iteration_Continue_started:
  "iteration ext conf ev st = Continue st' \<Longrightarrow> heartbeatsStarted st \<le> heartbeatsStarted st'"
  using heartbeatsStarted_iteration [of ext conf ev st] by simp

lemma heartbeatsStarted_deferred [simp]:
  "heartbeatsStarted (emit [NodeClose, Cancel, ConnClose] st) = heartbeatsStarted st"
  by (simp add: heartbeatsStarted_def)


lemma consistent_accepted: "consistent (accepted ext conf)"
  by (simp add: consistent_def accepted_def cancelled_def heartbeatsStarted_def newConn_def)

lemma consistent_Read:
  assumes "consistent c"
  shows "consistent (happen ext conf (Read ev) c)"
proof (cases "handler c")
  case (Return st)
  with assms show ?thesis by (simp add: happen_def)
next
  case (Continue st)
  note c = Continue
  from assms c have len: "length (heartbeats c) = heartbeatsStarted st"
    and nc: "Cancel \<notin> set (trace st)"
    and nd: "\<forall>s \<in> set (heartbeats c). \<forall>d. Done \<notin> set (s d)"
    by (simp_all add: consistent_def cancelled_def)
  show ?thesis
  proof (cases "iteration ext conf ev st")
    case (Continue st')
    have "Cancel \<notin> set (trace st')"
      using Cancel_iteration [of ext conf ev st] Continue nc by simp
    moreover have "heartbeatsStarted st \<le> heartbeatsStarted st'"
      using Continue by (rule iteration_Continue_started)
    ultimately show ?thesis
      using c Continue len nd
      by (auto simp: happen_def consistent_def cancelled_def)
  next
    case (Return st')
    have "heartbeatsStarted st' = heartbeatsStarted st"
      using Return by (rule iteration_Return_started)
    then show ?thesis
      using c Return len
      by (auto simp: happen_def consistent_def cancelled_def)
  qed
qed

lemma consistent_Fire:
  assumes "consistent c"
  shows "consistent (happen ext conf (Fire n d err) c)"
proof (cases "n < length (heartbeats c)")
  case False
  with assms show ?thesis by (simp add: happen_def)
next
  case True
  let ?s' = "(heartbeats c ! n)(d := (heartbeats c ! n) d @ [Tick err])"
  let ?hb = "(heartbeats c)[n := ?s']"
  from assms have old: "\<And>s d'. s \<in> set (heartbeats c) \<Longrightarrow>
                          (Done \<in> set (s d')) = returned (handler c)"
    by (simp add: consistent_def)
  have key: "(Done \<in> set (s d')) = returned (handler c)" if "s \<in> set ?hb" for s d'
  proof -
    from that set_update_subset_insert [of "heartbeats c" n ?s']
    consider "s \<in> set (heartbeats c)" | "s = ?s'" by blast
    then show ?thesis
    proof cases
      case 1
      then show ?thesis by (rule old)
    next
      case 2
      have "(Done \<in> set ((heartbeats c ! n) d')) = returned (handler c)"
        using True by (intro old) simp
      with 2 show ?thesis by auto
    qed
  qed
  have "happen ext conf (Fire n d err) c = c\<lparr>heartbeats := ?hb\<rparr>"
    using True by (simp add: happen_def)
  with assms key show ?thesis
    by (simp add: consistent_def cancelled_def)
qed

lemma consistent_happen: "consistent c \<Longrightarrow> consistent (happen ext conf h c)"
  by (cases h) (simp_all add: consistent_Read consistent_Fire)

lemma consistent_run: "consistent c \<Longrightarrow> consistent (run ext conf hs c)"
  by (induction hs arbitrary: c) (simp_all add: consistent_happen)

lemma consistent_reached: "consistent (run ext conf hs (accepted ext conf))"
  by (simp add: consistent_run consistent_accepted)


lemma handler_run_returned:
  "handler c = Return st \<Longrightarrow> handler (run ext conf hs c) = Return st"
proof (induction hs arbitrary: c)
  case Nil
  then show ?case by simp
next
  case (Cons h hs)
  have "handler (happen ext conf h c) = Return st"
    using Cons.prems by (cases h) (simp_all add: happen_def)
  then show ?case by (simp add: Cons.IH)
qed

lemma handler_run:
  "handler c = Continue st \<Longrightarrow>
   handler (run ext conf hs c) =
     (case readLoop ext conf (reads hs) st of
        Return st' \<Rightarrow> Return (emit [NodeClose, Cancel, ConnClose] st')
      | Continue st' \<Rightarrow> Continue st')"
proof (induction hs arbitrary: c st)
  case Nil
  then show ?case by simp
next
  case (Cons h hs)
  show ?case
  proof (cases h)
    case (Fire n d err)
    have "handler (happen ext conf h c) = Continue st"
      using Cons.prems Fire by (simp add: happen_def)
    from Cons.IH [OF this] Fire show ?thesis by simp
  next
    case (Read ev)
    show ?thesis
    proof (cases "iteration ext conf ev st")
      case (Continue st')
      have "handler (happen ext conf h c) = Continue st'"
        using Cons.prems Read Continue by (simp add: happen_def)
      from Cons.IH [OF this] Read Continue show ?thesis by simp
    next
      case (Return st')
      have "handler (happen ext conf h c) = Return (emit [NodeClose, Cancel, ConnClose] st')"
        using Cons.prems Read Return by (simp add: happen_def)
      from handler_run_returned [OF this] Read Return show ?thesis by simp
    qed
  qed
qed

lemma handler_run_accepted:
  "handler (run ext conf hs (accepted ext conf)) = handleConn ext conf (reads hs)"
  by (simp add: handler_run [of _ "newConn ext conf"] accepted_def handleConn_def)

lemma heartbeatTasks_running:
  assumes "consistent c"
  shows "\<forall>t \<in> set (heartbeatTasks c). isRunning t \<longleftrightarrow> \<not> cancelled c"
  using assms
  by (auto simp: heartbeatTasks_def consistent_def callStatusPerInterval_isRunning)









lemma relayedBytes_simps [simp]:
  "relayedBytes [] = []"
  "relayedBytes (NodeEncode raw # es) = EncodeRawMessage raw @ relayedBytes es"
  "relayedBytes (Log lv args # es) = relayedBytes es"
  by (simp_all add: relayedBytes_def)

lemma relayedBytes_append [simp]: "relayedBytes (es @ es') = relayedBytes es @ relayedBytes es'"
  by (simp add: relayedBytes_def)

lemma happen_Read_Continue:
  "handler c = Continue st \<Longrightarrow> iteration ext conf ev st = Continue st' \<Longrightarrow>
   happen ext conf (Read ev) c =
     \<lparr>handler = Continue st',
      heartbeats = heartbeats c @
        replicate (heartbeatsStarted st' - heartbeatsStarted st) (\<lambda>d. [])\<rparr>"
  by (simp add: happen_def)

lemma iteration_empty_frame: "iteration ext conf (frameRead []) st = Return st"
  by (simp add: iteration_def afterDecode_def frameRead_def)

subsection \<open>The sample deployment, evaluated\<close>

lemma sample_read [simp]:
  "readErr (frameRead raw) = None" "jsonRaw (frameRead raw) = raw"
  "randInt63 (frameRead raw) = 4037200794235010051"
  by (simp_all add: frameRead_def)

lemma sample_nonempty [simp]:
  "frameLoginAlice \<noteq> []" "frameLoginBob \<noteq> []" "frameLoginWrong \<noteq> []"
  "frameLoginMonitor \<noteq> []" "frameGetJob \<noteq> []"
  by (simp_all add: sample_frame_defs)

lemma sample_getjob:
  "UnmarshalRequest sampleExt (jsonRaw (frameRead frameGetJob)) =
     Some \<lparr>reqID = ''5'', reqJsonRpc = '''', reqMethod = ''getjobtemplate'', Params = None\<rparr>"
  by (simp add: sample_frame_defs)

lemma sample_alice:
  "UnmarshalRequest sampleExt (jsonRaw (frameRead frameLoginAlice)) =
     Some (loginRequest ''1'' '' alice '' ''secret'' ''rig1'')"
  by (simp add: sample_frame_defs)

lemma sample_bob:
  "UnmarshalRequest sampleExt (jsonRaw (frameRead frameLoginBob)) =
     Some (loginRequest ''2'' ''bob'' ''pw'' ''rig2'')"
  by (simp add: sample_frame_defs)

lemma sample_wrong:
  "UnmarshalRequest sampleExt (jsonRaw (frameRead frameLoginWrong)) =
     Some (loginRequest ''3'' ''alice'' ''nope'' ''rig1'')"
  by (simp add: sample_frame_defs)


lemma asciiTrimSpace_samples [simp]:
  "asciiTrimSpace '' alice '' = ''alice''" "asciiTrimSpace ''alice'' = ''alice''"
  "asciiTrimSpace ''bob'' = ''bob''" "asciiTrimSpace ''secret'' = ''secret''"
  "asciiTrimSpace ''nope'' = ''nope''" "asciiTrimSpace ''pw'' = ''pw''"
  "asciiTrimSpace ''rig1'' = ''rig1''" "asciiTrimSpace ''rig2'' = ''rig2''"
  "asciiTrimSpace ''monitor-7'' = ''monitor-7''"
  by (simp_all add: asciiTrimSpace_def TrimLeft_def TrimRight_def)

lemma param_loginRequest [simp]:
  "param sampleExt (loginRequest i l p a) ''login'' = asciiTrimSpace l"
  "param sampleExt (loginRequest i l p a) ''pass'' = asciiTrimSpace p"
  "param sampleExt (loginRequest i l p a) ''agent'' = asciiTrimSpace a"
  by (simp_all add: param_def loginRequest_def sampleExt_def index_def)

lemma reqMethod_loginRequest [simp]: "reqMethod (loginRequest i l p a) = ''login''"
  by (simp add: loginRequest_def)

lemma sampleExt_sel [simp]:
  "verifyMiner sampleExt = sampleVerifyMiner" "RemoteAddr sampleExt = ''10.0.0.7:51000''"
  "UnmarshalRequest sampleExt = sampleUnmarshalRequest"
  by (simp_all add: sampleExt_def)

lemma sampleConf_sel [simp]:
  "OmitAgentStatus sampleConf = [''monitor'']" "Diff sampleConf = 1"
  by (simp_all add: sampleConf_def)

lemma agentOf_loginRequest [simp]:
  "asciiTrimSpace a \<noteq> '''' \<Longrightarrow> agentOf sampleExt ev (loginRequest i l p a) = asciiTrimSpace a"
  by (simp add: agentOf_def)

lemma iteration_sample_login:
  assumes "UnmarshalRequest sampleExt (jsonRaw (frameRead raw)) = Some (loginRequest i l p a)"
    and "raw \<noteq> []"
  shows "iteration sampleExt conf (frameRead raw) st =
           Continue (loginCase sampleExt conf (frameRead raw) (loginRequest i l p a)
             (emit [Log LogInfo [Str ''10.0.0.7:51000'', Str '' sends a '', Str ''login'',
                                 Str '' request:'', Str raw]] st))"
  using assms by (simp add: iteration_frame dispatch_login)

lemma sample_getjob_spaced:
  "UnmarshalRequest sampleExt (jsonRaw (frameRead frameGetJobSpaced)) =
     Some \<lparr>reqID = ''5'', reqJsonRpc = '''', reqMethod = ''getjobtemplate'', Params = None\<rparr>"
  by (simp add: sample_frame_defs)

lemma EncodeRawMessage_spaced: "EncodeRawMessage frameGetJobSpaced = frameGetJob @ [CHR 0x0A]"
  by (simp add: EncodeRawMessage_def frameGetJobSpaced_def frameGetJob_def isSpace_def)

lemma sample_first_login:
  "run sampleExt sampleConf [Read (frameRead frameLoginAlice)] (accepted sampleExt sampleConf) =
     \<lparr>handler = Continue (loginCase sampleExt sampleConf (frameRead frameLoginAlice)
          (loginRequest ''1'' '' alice '' ''secret'' ''rig1'')
          (emit [Log LogInfo [Str ''10.0.0.7:51000'', Str '' sends a '', Str ''login'',
                              Str '' request:'', Str frameLoginAlice]]
             (newConn sampleExt sampleConf))),
      heartbeats = [\<lambda>d. []]\<rparr>"
  by (simp add: accepted_def happen_Read_Continue [OF _ iteration_sample_login [OF sample_alice]]
        heartbeatsStarted_loginCase)

lemma sample_c1:
  "run sampleExt sampleConf
     [Read (frameRead frameLoginAlice), Fire 0 10000000000 None]
     (accepted sampleExt sampleConf) =
   \<lparr>handler = Continue (loginCase sampleExt sampleConf (frameRead frameLoginAlice)
          (loginRequest ''1'' '' alice '' ''secret'' ''rig1'')
          (emit [Log LogInfo [Str ''10.0.0.7:51000'', Str '' sends a '', Str ''login'',
                              Str '' request:'', Str frameLoginAlice]]
             (newConn sampleExt sampleConf))),
    heartbeats = [(\<lambda>d. [])(10000000000 := [Tick None])]\<rparr>"
  using sample_first_login by (simp add: happen_def)

lemma sample_c2:
  "run sampleExt sampleConf
     [Read (frameRead frameLoginAlice), Fire 0 10000000000 None, Read (frameRead []),
      Fire 0 10000000000 None]
     (accepted sampleExt sampleConf) =
   \<lparr>handler = Return (emit [NodeClose, Cancel, ConnClose]
        (loginCase sampleExt sampleConf (frameRead frameLoginAlice)
          (loginRequest ''1'' '' alice '' ''secret'' ''rig1'')
          (emit [Log LogInfo [Str ''10.0.0.7:51000'', Str '' sends a '', Str ''login'',
                              Str '' request:'', Str frameLoginAlice]]
             (newConn sampleExt sampleConf)))),
    heartbeats = [(\<lambda>d. [Done])(10000000000 := [Tick None, Done, Tick None])]\<rparr>"
proof -
  have "run sampleExt sampleConf
     [Read (frameRead frameLoginAlice), Fire 0 10000000000 None, Read (frameRead []),
      Fire 0 10000000000 None]
     (accepted sampleExt sampleConf) =
     run sampleExt sampleConf [Read (frameRead []), Fire 0 10000000000 None]
       (run sampleExt sampleConf [Read (frameRead frameLoginAlice), Fire 0 10000000000 None]
          (accepted sampleExt sampleConf))"
    by simp
  also have "\<dots> = \<lparr>handler = Return (emit [NodeClose, Cancel, ConnClose]
        (loginCase sampleExt sampleConf (frameRead frameLoginAlice)
          (loginRequest ''1'' '' alice '' ''secret'' ''rig1'')
          (emit [Log LogInfo [Str ''10.0.0.7:51000'', Str '' sends a '', Str ''login'',
                              Str '' request:'', Str frameLoginAlice]]
             (newConn sampleExt sampleConf)))),
    heartbeats = [(\<lambda>d. [Done])(10000000000 := [Tick None, Done, Tick None])]\<rparr>"
    unfolding sample_c1
    by (simp add: happen_def iteration_empty_frame fun_eq_iff)
  finally show ?thesis .
qed

section \<open>Classification of what the node pushes\<close>

text \<open>
  C5. A pushed message that decodes to a \<open>submit\<close> response: when its error is absent and its
  result is a string that contains \<open>block\<close>, the handler calls \<open>putShare\<close> once and
  \<open>putBlockHash\<close> once, with the result text trimmed by \<open>strings.Trim\<close>, and makes no other
  recording call; when its error is present it makes no recording call at all.
\<close>

theorem submit_recording:
  assumes "UnmarshalResponse ext sr = res" and "resMethod res = ''submit''"
  shows "(Error res = None \<and> Result res = DString detail \<and> Contains detail ''block'' \<longrightarrow>
            filter recording (pushHandler ext ms sr encErr) =
              [PutShare (login ms) (agent ms) (difficulty ms),
               PutBlockHash (Trim detail ''block - '')])
       \<and> (Error res \<noteq> None \<longrightarrow> filter recording (pushHandler ext ms sr encErr) = [])"
  using assms by (auto simp: pushHandler_def handleMethod_def Let_def)

theorem submit_recording_witness:
  "UnmarshalResponse sampleExt pushBlock =
     \<lparr>resID = ''6'', resJsonRpc = '''', resMethod = ''submit'',
      Result = DString ''blockfound - 2a1c'', Error = None\<rparr>
   \<and> Contains ''blockfound - 2a1c'' ''block''
   \<and> filter recording (pushHandler sampleExt sampleSession pushBlock None) =
       [PutShare ''alice'' ''rig1'' 1, PutBlockHash ''found - 2a1'']
   \<and> Error (UnmarshalResponse sampleExt pushSubmitError) \<noteq> None
   \<and> filter recording (pushHandler sampleExt sampleSession pushSubmitError None) = []"
proof -
  have b: "UnmarshalResponse sampleExt pushBlock =
     \<lparr>resID = ''6'', resJsonRpc = '''', resMethod = ''submit'',
      Result = DString ''blockfound - 2a1c'', Error = None\<rparr>"
    by (simp add: sample_push_defs)
  have c: "Contains ''blockfound - 2a1c'' ''block''" by simp
  have t: "Trim ''blockfound - 2a1c'' ''block - '' = ''found - 2a1''"
    by (simp add: Trim_def TrimLeft_def TrimRight_def)
  have e: "UnmarshalResponse sampleExt pushSubmitError =
     \<lparr>resID = ''7'', resJsonRpc = '''', resMethod = ''submit'',
      Result = DNil, Error = Some [''message'' \<mapsto> DString ''too late'']\<rparr>"
    by (simp add: sample_push_defs)
  from submit_recording [OF b, of "''blockfound - 2a1c''" sampleSession None] c t
  have 1: "filter recording (pushHandler sampleExt sampleSession pushBlock None) =
       [PutShare ''alice'' ''rig1'' 1, PutBlockHash ''found - 2a1'']"
    by (simp add: sampleSession_def)
  from submit_recording [OF e, of "''''" sampleSession None]
  have 2: "filter recording (pushHandler sampleExt sampleSession pushSubmitError None) = []"
    by simp
  from b c 1 2 e show ?thesis by simp
qed

text \<open>
  C6. For a submit detail that contains \<open>block\<close>, the hash given to \<open>putBlockHash\<close> is the
  detail with a prefix and a suffix removed that consist of characters of
  \<open>{b, l, o, c, k, -, space}\<close> only, and what is left neither begins nor ends with such a
  character: the trim is by character set, so \<open>blockfound - 2a1c\<close> is recorded as
  \<open>found - 2a1\<close>.
\<close>

theorem block_hash_charset_trim:
  assumes "resMethod res = ''submit''" and "Error res = None"
    and "Result res = DString detail" and "Contains detail ''block''"
  shows "\<exists>h pre suf.
           filter isPutBlockHash (handleMethod ms res) = [PutBlockHash h] \<and>
           detail = pre @ h @ suf \<and>
           set pre \<subseteq> blockCutset \<and> set suf \<subseteq> blockCutset \<and>
           (h = [] \<or> (hd h \<notin> blockCutset \<and> last h \<notin> blockCutset))"
proof -
  have cs: "set ''block - '' = blockCutset"
    by (auto simp: blockCutset_def)
  have "filter isPutBlockHash (handleMethod ms res) = [PutBlockHash (Trim detail ''block - '')]"
    using assms by (simp add: handleMethod_def isPutBlockHash_def Let_def)
  then show ?thesis using Trim_decomp [of detail "''block - ''"] unfolding cs by blast
qed

theorem block_hash_charset_trim_witness:
  "filter isPutBlockHash (handleMethod sampleSession (sampleUnmarshalResponse pushBlock)) =
     [PutBlockHash ''found - 2a1''] \<and>
   ''blockfound - 2a1c'' = ''block'' @ ''found - 2a1'' @ ''c'' \<and>
   (\<exists>h pre suf.
      filter isPutBlockHash (handleMethod sampleSession (sampleUnmarshalResponse pushBlock)) =
        [PutBlockHash h] \<and>
      ''blockfound - 2a1c'' = pre @ h @ suf \<and>
      set pre \<subseteq> blockCutset \<and> set suf \<subseteq> blockCutset \<and>
      (h = [] \<or> (hd h \<notin> blockCutset \<and> last h \<notin> blockCutset)))"
proof -
  let ?res = "sampleUnmarshalResponse pushBlock"
  have r: "?res = \<lparr>resID = ''6'', resJsonRpc = '''', resMethod = ''submit'',
      Result = DString ''blockfound - 2a1c'', Error = None\<rparr>"
    by (simp add: sample_push_defs)
  have m: "resMethod ?res = ''submit''" and e: "Error ?res = None"
    and d: "Result ?res = DString ''blockfound - 2a1c''"
    by (simp_all add: r)
  have c: "Contains ''blockfound - 2a1c'' ''block''" by simp
  have t: "Trim ''blockfound - 2a1c'' ''block - '' = ''found - 2a1''"
    by (simp add: Trim_def TrimLeft_def TrimRight_def)
  have 1: "filter isPutBlockHash (handleMethod sampleSession ?res) = [PutBlockHash ''found - 2a1'']"
    using c t by (simp add: r handleMethod_def isPutBlockHash_def Let_def)
  from block_hash_charset_trim [OF m e d c, of sampleSession] 1 show ?thesis by simp
qed

text \<open>
  C9. A pushed \<open>submit\<close> response without an error whose result is not a string: the handler
  makes no recording call, neither \<open>putShare\<close> nor \<open>putBlockHash\<close>.
\<close>

theorem submit_non_string_records_nothing:
  assumes "UnmarshalResponse ext sr = res" and "resMethod res = ''submit''"
    and "Error res = None" and "\<forall>s. Result res \<noteq> DString s"
  shows "filter recording (pushHandler ext ms sr encErr) = []"
  using assms by (cases "Result res") (simp_all add: pushHandler_def handleMethod_def)

theorem submit_non_string_records_nothing_witness:
  "UnmarshalResponse sampleExt pushSubmitOdd =
     \<lparr>resID = ''8'', resJsonRpc = '''', resMethod = ''submit'',
      Result = DBool True, Error = None\<rparr>
   \<and> filter recording (pushHandler sampleExt sampleSession pushSubmitOdd None) = []"
proof -
  have r: "UnmarshalResponse sampleExt pushSubmitOdd =
     \<lparr>resID = ''8'', resJsonRpc = '''', resMethod = ''submit'',
      Result = DBool True, Error = None\<rparr>"
    by (simp add: sample_push_defs)
  from submit_non_string_records_nothing [OF r, of sampleSession None] r
  show ?thesis by simp
qed

text \<open>
  C10. A pushed \<open>status\<close> response that arrives when the session's login is set: the handler
  calls \<open>setMinerAgentStatus\<close> exactly once with the session's login, agent and difficulty;
  when the result is not a mapping, the status it passes is the nil map.
\<close>

theorem status_recorded_once:
  assumes "UnmarshalResponse ext sr = res" and "resMethod res = ''status''"
    and "login ms \<noteq> ''''"
  shows "(\<exists>m. filter recording (pushHandler ext ms sr encErr) =
               [SetMinerAgentStatus (login ms) (agent ms) (difficulty ms) m])
       \<and> ((\<forall>f. Result res \<noteq> DMap f) \<longrightarrow>
            filter recording (pushHandler ext ms sr encErr) =
              [SetMinerAgentStatus (login ms) (agent ms) (difficulty ms) None])"
  using assms by (cases "Result res") (simp_all add: pushHandler_def handleMethod_def)

theorem status_recorded_once_witness:
  "UnmarshalResponse sampleExt pushStatusOdd =
     \<lparr>resID = ''0'', resJsonRpc = '''', resMethod = ''status'',
      Result = DString ''ok'', Error = None\<rparr>
   \<and> login sampleSession \<noteq> ''''
   \<and> filter recording (pushHandler sampleExt sampleSession pushStatusOdd None) =
       [SetMinerAgentStatus ''alice'' ''rig1'' 1 None]"
proof -
  have r: "UnmarshalResponse sampleExt pushStatusOdd =
     \<lparr>resID = ''0'', resJsonRpc = '''', resMethod = ''status'',
      Result = DString ''ok'', Error = None\<rparr>"
    by (simp add: sample_push_defs)
  have l: "login sampleSession \<noteq> ''''" by (simp add: sampleSession_def)
  from status_recorded_once [OF r _ l, of None] r l
  show ?thesis by (simp add: sampleSession_def)
qed

section \<open>The connection handler\<close>

text \<open>
  C8, as the code has it. A frame that was read without error, is not empty, parses as a
  request and has a method other than \<open>login\<close>: the read loop goes on, leaves the session
  as it is, writes nothing to the miner and hands exactly the frame it read to the node's
  encoder; when the session has no login yet, it logs a warning before doing so and does
  nothing else. What the encoder writes to the node is the frame compacted, with the
  characters it escapes replaced, and a line feed after it; for a frame without white
  space, without the escaped characters and without the byte E2 these are the bytes of the
  frame and the line feed.
\<close>

theorem non_login_frame_relayed_encoded:
  assumes "readErr ev = None" and "jsonRaw ev \<noteq> []"
    and "UnmarshalRequest ext (jsonRaw ev) = Some req" and "reqMethod req \<noteq> ''login''"
  shows "\<exists>st'. iteration ext conf ev st = Continue st' \<and>
           session st' = session st \<and>
           filter toNode (newEffects st st') = [NodeEncode (jsonRaw ev)] \<and>
           filter toMiner (newEffects st st') = [] \<and>
           relayedBytes (newEffects st st') = appendCompact False (jsonRaw ev) @ [CHR 0x0A] \<and>
           ((\<forall>c \<in> set (jsonRaw ev). plainChar c) \<longrightarrow>
              relayedBytes (newEffects st st') = jsonRaw ev @ [CHR 0x0A]) \<and>
           newEffects st st' =
             Log LogInfo [Str (RemoteAddr ext), Str '' sends a '', Str (reqMethod req),
                          Str '' request:'', Str (jsonRaw ev)] #
             (if login (session st) = ''''
              then [Log LogWarning [Str (loginVar st), Str '' has not logged in'']] else []) @
             [NodeEncode (jsonRaw ev)]"
  using assms
  by (simp add: iteration_frame dispatch_other EncodeRawMessage_def appendCompact_plain
        del: appendCompact.simps)

theorem non_login_frame_relayed_encoded_witness:
  "readErr (frameRead frameGetJob) = None \<and> jsonRaw (frameRead frameGetJob) \<noteq> [] \<and>
   UnmarshalRequest sampleExt (jsonRaw (frameRead frameGetJob)) =
     Some \<lparr>reqID = ''5'', reqJsonRpc = '''', reqMethod = ''getjobtemplate'', Params = None\<rparr> \<and>
   list_all plainChar (jsonRaw (frameRead frameGetJob)) \<and>
   (\<exists>st'. iteration sampleExt sampleConf (frameRead frameGetJob) (newConn sampleExt sampleConf) =
            Continue st' \<and>
          session st' = \<lparr>login = '''', agent = '''', difficulty = 1\<rparr> \<and>
          filter toNode (newEffects (newConn sampleExt sampleConf) st') = [NodeEncode frameGetJob] \<and>
          relayedBytes (newEffects (newConn sampleExt sampleConf) st') = frameGetJob @ [CHR 0x0A] \<and>
          newEffects (newConn sampleExt sampleConf) st' =
            [Log LogInfo [Str ''10.0.0.7:51000'', Str '' sends a '', Str ''getjobtemplate'',
                          Str '' request:'', Str frameGetJob],
             Log LogWarning [Str '''', Str '' has not logged in''],
             NodeEncode frameGetJob])"
proof -
  have h1: "readErr (frameRead frameGetJob) = None" by simp
  have h2: "jsonRaw (frameRead frameGetJob) \<noteq> []" by (simp add: frameGetJob_def)
  have h4: "reqMethod \<lparr>reqID = ''5'', reqJsonRpc = '''', reqMethod = ''getjobtemplate'',
                       Params = None\<rparr> \<noteq> ''login''" by simp
  have p: "\<forall>c \<in> set (jsonRaw (frameRead frameGetJob)). plainChar c"
    by (simp add: frameGetJob_def plainChar_def isSpace_def)
  from non_login_frame_relayed_encoded
         [OF h1 h2 sample_getjob h4, of sampleConf "newConn sampleExt sampleConf"]
  obtain st' where
    "iteration sampleExt sampleConf (frameRead frameGetJob) (newConn sampleExt sampleConf) = Continue st'"
    "session st' = session (newConn sampleExt sampleConf)"
    "filter toNode (newEffects (newConn sampleExt sampleConf) st') = [NodeEncode (jsonRaw (frameRead frameGetJob))]"
    "(\<forall>c \<in> set (jsonRaw (frameRead frameGetJob)). plainChar c) \<longrightarrow>
       relayedBytes (newEffects (newConn sampleExt sampleConf) st') =
         jsonRaw (frameRead frameGetJob) @ [CHR 0x0A]"
    "newEffects (newConn sampleExt sampleConf) st' =
       Log LogInfo [Str (RemoteAddr sampleExt), Str '' sends a '', Str ''getjobtemplate'',
                    Str '' request:'', Str (jsonRaw (frameRead frameGetJob))] #
       (if login (session (newConn sampleExt sampleConf)) = ''''
        then [Log LogWarning [Str (loginVar (newConn sampleExt sampleConf)), Str '' has not logged in'']]
        else []) @
       [NodeEncode (jsonRaw (frameRead frameGetJob))]"
    by auto
  with p have "\<exists>st'. iteration sampleExt sampleConf (frameRead frameGetJob) (newConn sampleExt sampleConf) =
            Continue st' \<and>
          session st' = \<lparr>login = '''', agent = '''', difficulty = 1\<rparr> \<and>
          filter toNode (newEffects (newConn sampleExt sampleConf) st') = [NodeEncode frameGetJob] \<and>
          relayedBytes (newEffects (newConn sampleExt sampleConf) st') = frameGetJob @ [CHR 0x0A] \<and>
          newEffects (newConn sampleExt sampleConf) st' =
            [Log LogInfo [Str ''10.0.0.7:51000'', Str '' sends a '', Str ''getjobtemplate'',
                          Str '' request:'', Str frameGetJob],
             Log LogWarning [Str '''', Str '' has not logged in''],
             NodeEncode frameGetJob]"
    by (intro exI [of _ st']) (simp add: newConn_def sampleConf_def sampleExt_def)
  moreover have "list_all plainChar (jsonRaw (frameRead frameGetJob))"
    using p by (simp add: list_all_iff)
  ultimately show ?thesis using h1 h2 sample_getjob by blast
qed

text \<open>
  The claim C8 as stated fails for a request with a space after each comma: the session is
  not logged in, the frame is relayed, and the bytes that go to the node are those of the
  frame without the spaces, followed by a line feed.
\<close>

theorem relayed_bytes_counterexample:
  "UnmarshalRequest sampleExt (jsonRaw (frameRead frameGetJobSpaced)) =
     Some \<lparr>reqID = ''5'', reqJsonRpc = '''', reqMethod = ''getjobtemplate'', Params = None\<rparr> \<and>
   iteration sampleExt sampleConf (frameRead frameGetJobSpaced) (newConn sampleExt sampleConf) =
     Continue
       \<lparr>session = \<lparr>login = '''', agent = '''', difficulty = 1\<rparr>,
        loginVar = '''',
        trace =
          [Log LogInfo [Str ''new conn from '', Str ''10.0.0.7:51000''],
           InitNodeStratumClient, GoRegisterHandler,
           Log LogInfo [Str ''10.0.0.7:51000'', Str '' sends a '', Str ''getjobtemplate'',
                        Str '' request:'', Str frameGetJobSpaced],
           Log LogWarning [Str '''', Str '' has not logged in''],
           NodeEncode frameGetJobSpaced]\<rparr> \<and>
   relayedBytes (newEffects (newConn sampleExt sampleConf) (stateOf
     (iteration sampleExt sampleConf (frameRead frameGetJobSpaced) (newConn sampleExt sampleConf)))) =
     frameGetJob @ [CHR 0x0A] \<and>
   frameGetJob @ [CHR 0x0A] \<noteq> frameGetJobSpaced"
proof -
  have ne: "jsonRaw (frameRead frameGetJobSpaced) \<noteq> []" by (simp add: frameGetJobSpaced_def)
  have it: "iteration sampleExt sampleConf (frameRead frameGetJobSpaced) (newConn sampleExt sampleConf) =
     Continue
       \<lparr>session = \<lparr>login = '''', agent = '''', difficulty = 1\<rparr>,
        loginVar = '''',
        trace =
          [Log LogInfo [Str ''new conn from '', Str ''10.0.0.7:51000''],
           InitNodeStratumClient, GoRegisterHandler,
           Log LogInfo [Str ''10.0.0.7:51000'', Str '' sends a '', Str ''getjobtemplate'',
                        Str '' request:'', Str frameGetJobSpaced],
           Log LogWarning [Str '''', Str '' has not logged in''],
           NodeEncode frameGetJobSpaced]\<rparr>"
    using ne sample_getjob_spaced
    by (simp add: iteration_frame dispatch_other emit_def newConn_def)
  have d: "frameGetJob @ [CHR 0x0A] \<noteq> frameGetJobSpaced"
    by (simp add: frameGetJob_def frameGetJobSpaced_def)
  have "relayedBytes (newEffects (newConn sampleExt sampleConf) (stateOf
     (iteration sampleExt sampleConf (frameRead frameGetJobSpaced) (newConn sampleExt sampleConf)))) =
     frameGetJob @ [CHR 0x0A]"
    unfolding it by (simp add: newEffects_def newConn_def EncodeRawMessage_spaced)
  with sample_getjob_spaced it d show ?thesis by blast
qed

text \<open>
  C1, as the code has it. A login request for which \<open>verifyMiner\<close> answers
  \<open>wrongPassword\<close>: the read loop goes on with an empty session login; the only bytes
  written to the miner are the literal of the source, which is the error reply of the
  specification laid out over nine lines (the two are equal once spaces and line feeds are
  taken out); and the login frame is then handed to the node's encoder like any other.
\<close>

theorem wrong_login_reply_and_relay:
  assumes "readErr ev = None" and "jsonRaw ev \<noteq> []"
    and "UnmarshalRequest ext (jsonRaw ev) = Some req" and "reqMethod req = ''login''"
    and "verifyMiner ext (param ext req ''login'') (param ext req ''pass'') = wrongPassword"
  shows "\<exists>st'. iteration ext conf ev st = Continue st' \<and>
           login (session st') = '''' \<and>
           filter toMiner (newEffects st st') = [ConnWrite loginErrorReply] \<and>
           filter toNode (newEffects st st') = [NodeEncode (jsonRaw ev)] \<and>
           filter (\<lambda>c. c \<noteq> CHR '' '' \<and> c \<noteq> CHR 0x0A) loginErrorReply =
             filter (\<lambda>c. c \<noteq> CHR '' '' \<and> c \<noteq> CHR 0x0A) spec_loginErrorReply"
proof -
  have ws: "filter (\<lambda>c. c \<noteq> CHR '' '' \<and> c \<noteq> CHR 0x0A) loginErrorReply =
            filter (\<lambda>c. c \<noteq> CHR '' '' \<and> c \<noteq> CHR 0x0A) spec_loginErrorReply"
    by code_simp
  let ?st' = "dispatch ext conf ev req st"
  have it: "iteration ext conf ev st = Continue ?st'"
    using assms(1-3) by (rule iteration_frame)
  have l: "login (session ?st') = ''''"
    using assms(4,5) by (simp add: dispatch_login loginCase_session)
  have n: "newEffects st ?st' =
      [Log LogInfo [Str (RemoteAddr ext), Str '' sends a '', Str (reqMethod req),
                    Str '' request:'', Str (jsonRaw ev)],
       Log LogWarning [Str (param ext req ''login''), Str '' has failed to login''],
       ConnWrite loginErrorReply] @
      (if requireCallStatus (agentOf ext ev req) (OmitAgentStatus conf)
       then [GoCallStatusPerInterval] else []) @
      [Log LogInfo [Str '''', Str '''s '', Str (agentOf ext ev req), Str '' has logged in''],
       NodeEncode (jsonRaw ev)]"
    using assms(4,5) by (simp add: dispatch_login newEffects_def loginCase_trace)
  have "filter toMiner (newEffects st ?st') = [ConnWrite loginErrorReply]"
    and "filter toNode (newEffects st ?st') = [NodeEncode (jsonRaw ev)]"
    unfolding n by simp_all
  with it l ws show ?thesis by blast
qed

theorem wrong_login_reply_and_relay_witness:
  "readErr (frameRead frameLoginWrong) = None \<and> jsonRaw (frameRead frameLoginWrong) \<noteq> [] \<and>
   UnmarshalRequest sampleExt (jsonRaw (frameRead frameLoginWrong)) =
     Some (loginRequest ''3'' ''alice'' ''nope'' ''rig1'') \<and>
   verifyMiner sampleExt ''alice'' ''nope'' = wrongPassword \<and>
   (\<exists>st'. iteration sampleExt sampleConf (frameRead frameLoginWrong) (newConn sampleExt sampleConf) =
            Continue st' \<and>
          login (session st') = '''' \<and>
          filter toMiner (newEffects (newConn sampleExt sampleConf) st') = [ConnWrite loginErrorReply] \<and>
          filter toNode (newEffects (newConn sampleExt sampleConf) st') = [NodeEncode frameLoginWrong])"
proof -
  have h1: "readErr (frameRead frameLoginWrong) = None" by simp
  have h2: "jsonRaw (frameRead frameLoginWrong) \<noteq> []" by (simp add: frameLoginWrong_def)
  have h4: "reqMethod (loginRequest ''3'' ''alice'' ''nope'' ''rig1'') = ''login''" by simp
  have v: "verifyMiner sampleExt ''alice'' ''nope'' = wrongPassword"
    by (simp add: sampleVerifyMiner_def)
  have h5: "verifyMiner sampleExt (param sampleExt (loginRequest ''3'' ''alice'' ''nope'' ''rig1'') ''login'')
              (param sampleExt (loginRequest ''3'' ''alice'' ''nope'' ''rig1'') ''pass'') = wrongPassword"
    using v by simp
  from wrong_login_reply_and_relay [OF h1 h2 sample_wrong h4 h5, of sampleConf "newConn sampleExt sampleConf"]
  have "\<exists>st'. iteration sampleExt sampleConf (frameRead frameLoginWrong) (newConn sampleExt sampleConf) =
            Continue st' \<and>
          login (session st') = '''' \<and>
          filter toMiner (newEffects (newConn sampleExt sampleConf) st') = [ConnWrite loginErrorReply] \<and>
          filter toNode (newEffects (newConn sampleExt sampleConf) st') = [NodeEncode frameLoginWrong]"
    by auto
  with h1 h2 sample_wrong v show ?thesis by blast
qed

text \<open>
  The claim C1 as stated fails for \<open>alice\<close> with a wrong password on a fresh connection:
  the frame is among the effects as a relay to the node, and the one-line reply of the
  specification is not what is written to the miner.
\<close>

theorem wrong_login_counterexample:
  "verifyMiner sampleExt ''alice'' ''nope'' = wrongPassword \<and>
   iteration sampleExt sampleConf (frameRead frameLoginWrong) (newConn sampleExt sampleConf) =
     Continue
       \<lparr>session = \<lparr>login = '''', agent = ''rig1'', difficulty = 1\<rparr>,
        loginVar = '''',
        trace =
          [Log LogInfo [Str ''new conn from '', Str ''10.0.0.7:51000''],
           InitNodeStratumClient, GoRegisterHandler,
           Log LogInfo [Str ''10.0.0.7:51000'', Str '' sends a '', Str ''login'',
                        Str '' request:'', Str frameLoginWrong],
           Log LogWarning [Str ''alice'', Str '' has failed to login''],
           ConnWrite loginErrorReply,
           GoCallStatusPerInterval,
           Log LogInfo [Str '''', Str '''s '', Str ''rig1'', Str '' has logged in''],
           NodeEncode frameLoginWrong]\<rparr> \<and>
   NodeEncode frameLoginWrong \<in> set (trace (stateOf
     (iteration sampleExt sampleConf (frameRead frameLoginWrong) (newConn sampleExt sampleConf)))) \<and>
   ConnWrite spec_loginErrorReply \<notin> set (trace (stateOf
     (iteration sampleExt sampleConf (frameRead frameLoginWrong) (newConn sampleExt sampleConf))))"
proof -
  have v: "verifyMiner sampleExt ''alice'' ''nope'' = wrongPassword"
    by (simp add: sampleVerifyMiner_def)
  have ne: "spec_loginErrorReply \<noteq> loginErrorReply"
    by (simp add: loginErrorReply_def spec_loginErrorReply_def)
  have "iteration sampleExt sampleConf (frameRead frameLoginWrong) (newConn sampleExt sampleConf) =
     Continue (dispatch sampleExt sampleConf (frameRead frameLoginWrong)
                (loginRequest ''3'' ''alice'' ''nope'' ''rig1'') (newConn sampleExt sampleConf))"
    using sample_wrong by (simp add: iteration_frame)
  moreover have "dispatch sampleExt sampleConf (frameRead frameLoginWrong)
                (loginRequest ''3'' ''alice'' ''nope'' ''rig1'') (newConn sampleExt sampleConf) =
       \<lparr>session = \<lparr>login = '''', agent = ''rig1'', difficulty = 1\<rparr>,
        loginVar = '''',
        trace =
          [Log LogInfo [Str ''new conn from '', Str ''10.0.0.7:51000''],
           InitNodeStratumClient, GoRegisterHandler,
           Log LogInfo [Str ''10.0.0.7:51000'', Str '' sends a '', Str ''login'',
                        Str '' request:'', Str frameLoginWrong],
           Log LogWarning [Str ''alice'', Str '' has failed to login''],
           ConnWrite loginErrorReply,
           GoCallStatusPerInterval,
           Log LogInfo [Str '''', Str '''s '', Str ''rig1'', Str '' has logged in''],
           NodeEncode frameLoginWrong]\<rparr>"
    using v
    by (simp add: dispatch_def loginCase_def Let_def emit_def newConn_def
          param_def [symmetric])
  ultimately show ?thesis using v ne by simp
qed

text \<open>
  C2, as the code has it. A read error other than a peer reset does not by itself end the
  loop, and it is logged only when it is not a \<open>*net.OpError\<close>. The loop then tests the
  frame: when the failed read has left it empty, \<open>handleConn\<close> returns; when a frame is
  there, the pass goes on as for a read without error.
\<close>

theorem read_error_then_empty_test:
  assumes "readErr ev = Some e" and "e \<noteq> OpError ECONNRESET_Error"
  shows "(jsonRaw ev = [] \<longrightarrow>
            readLoop ext conf (ev # evs) st = Return (emit (errorLog e) st))
       \<and> (jsonRaw ev \<noteq> [] \<longrightarrow>
            readLoop ext conf (ev # evs) st =
              readLoop ext conf (ev\<lparr>readErr := None\<rparr> # evs) (emit (errorLog e) st))"
proof -
  have "iteration ext conf ev st = afterDecode ext conf ev (emit (errorLog e) st)"
    using assms by (cases e) (simp_all add: iteration_def errorLog_def emit_def)
  moreover have "iteration ext conf (ev\<lparr>readErr := None\<rparr>) (emit (errorLog e) st) =
                 afterDecode ext conf ev (emit (errorLog e) st)"
    by (simp add: iteration_def afterDecode_def dispatch_def loginCase_def Let_def
          split: option.splits)
  moreover have "jsonRaw ev = [] \<Longrightarrow> afterDecode ext conf ev (emit (errorLog e) st) =
                 Return (emit (errorLog e) st)"
    by (simp add: afterDecode_def)
  ultimately show ?thesis by simp
qed

theorem read_error_then_empty_test_witness:
  "readErr (failedRead (OtherError ''invalid character 'x' looking for beginning of value'')) =
     Some (OtherError ''invalid character 'x' looking for beginning of value'') \<and>
   OtherError ''invalid character 'x' looking for beginning of value'' \<noteq> OpError ECONNRESET_Error \<and>
   jsonRaw (failedRead (OtherError ''invalid character 'x' looking for beginning of value'')) = [] \<and>
   readLoop sampleExt sampleConf
       [failedRead (OtherError ''invalid character 'x' looking for beginning of value''),
        frameRead frameGetJob]
       (newConn sampleExt sampleConf) =
     Return (emit [Log LogError [ErrArg (OtherError ''invalid character 'x' looking for beginning of value'')]]
              (newConn sampleExt sampleConf)) \<and>
   jsonRaw ((frameRead frameGetJob)\<lparr>readErr := Some (OpError ''read: connection timed out'')\<rparr>) \<noteq> [] \<and>
   readLoop sampleExt sampleConf
       [(frameRead frameGetJob)\<lparr>readErr := Some (OpError ''read: connection timed out'')\<rparr>]
       (newConn sampleExt sampleConf) =
     readLoop sampleExt sampleConf [frameRead frameGetJob] (newConn sampleExt sampleConf)"
proof -
  let ?e = "OtherError ''invalid character 'x' looking for beginning of value''"
  let ?t = "OpError ''read: connection timed out''"
  let ?ev = "(frameRead frameGetJob)\<lparr>readErr := Some ?t\<rparr>"
  have h1: "readErr (failedRead ?e) = Some ?e" by (simp add: failedRead_def)
  have h2: "?e \<noteq> OpError ECONNRESET_Error" by simp
  have h3: "jsonRaw (failedRead ?e) = []" by (simp add: failedRead_def)
  from read_error_then_empty_test
         [OF h1 h2, of sampleExt sampleConf "[frameRead frameGetJob]" "newConn sampleExt sampleConf"] h3
  have 1: "readLoop sampleExt sampleConf [failedRead ?e, frameRead frameGetJob]
             (newConn sampleExt sampleConf) =
           Return (emit [Log LogError [ErrArg ?e]] (newConn sampleExt sampleConf))"
    by (simp add: errorLog_def)
  have k1: "readErr ?ev = Some ?t" by simp
  have k2: "?t \<noteq> OpError ECONNRESET_Error" by (simp add: ECONNRESET_Error_def)
  have k3: "jsonRaw ?ev \<noteq> []" by simp
  have k4: "?ev\<lparr>readErr := None\<rparr> = frameRead frameGetJob" by (simp add: frameRead_def)
  have k5: "emit (errorLog ?t) (newConn sampleExt sampleConf) = newConn sampleExt sampleConf"
    by (simp add: errorLog_def emit_def)
  from read_error_then_empty_test
         [OF k1 k2, of sampleExt sampleConf "[]" "newConn sampleExt sampleConf"] k3
  have 2: "readLoop sampleExt sampleConf [?ev] (newConn sampleExt sampleConf) =
           readLoop sampleExt sampleConf [frameRead frameGetJob] (newConn sampleExt sampleConf)"
    unfolding k4 k5 by blast
  from h1 h2 h3 1 k3 2 show ?thesis by blast
qed

text \<open>
  The claim C2 as stated fails on a frame that is not JSON, and on a read that timed out:
  the decoder's error leaves the frame empty, the loop returns, and the request that the
  miner sends next is never read. The time-out, a \<open>*net.OpError\<close>, is not even logged.
\<close>

theorem read_error_counterexample:
  "readLoop sampleExt sampleConf
     [failedRead (OtherError ''invalid character 'x' looking for beginning of value''),
      frameRead frameGetJob]
     (newConn sampleExt sampleConf) =
   Return
     \<lparr>session = \<lparr>login = '''', agent = '''', difficulty = 1\<rparr>,
      loginVar = '''',
      trace =
        [Log LogInfo [Str ''new conn from '', Str ''10.0.0.7:51000''],
         InitNodeStratumClient, GoRegisterHandler,
         Log LogError [ErrArg (OtherError ''invalid character 'x' looking for beginning of value'')]]\<rparr>
   \<and> readLoop sampleExt sampleConf
       [failedRead (OpError ''read: connection timed out''), frameRead frameGetJob]
       (newConn sampleExt sampleConf) =
     Return
       \<lparr>session = \<lparr>login = '''', agent = '''', difficulty = 1\<rparr>,
        loginVar = '''',
        trace =
          [Log LogInfo [Str ''new conn from '', Str ''10.0.0.7:51000''],
           InitNodeStratumClient, GoRegisterHandler]\<rparr>"
  by (simp add: iteration_def afterDecode_def failedRead_def emit_def newConn_def
        ECONNRESET_Error_def)

text \<open>
  C3, as the code has it. The session's login is written by every login request that the
  loop dispatches, and by nothing else: it becomes the empty string when \<open>verifyMiner\<close>
  answers \<open>wrongPassword\<close> and the trimmed \<open>login\<close> parameter otherwise, whatever it was
  before.
\<close>

theorem login_field_written_by_login_requests:
  "login (session (stateOf (iteration ext conf ev st))) =
     (case handledRequest ext ev of
        None \<Rightarrow> login (session st)
      | Some req \<Rightarrow>
          if reqMethod req = ''login'' then
            (if verifyMiner ext (param ext req ''login'') (param ext req ''pass'') = wrongPassword
             then '''' else param ext req ''login'')
          else login (session st))"
proof (cases "handledRequest ext ev")
  case None
  then show ?thesis
    by (simp add: iteration_handled stateOf_def Let_def)
next
  case (Some req)
  with handledRequest_SomeD [OF Some] show ?thesis
    by (simp add: iteration_handled stateOf_def Let_def dispatch_other dispatch_login
          loginCase_session)
qed

theorem login_field_written_by_login_requests_witness:
  "handledRequest sampleExt (frameRead frameLoginBob) = Some (loginRequest ''2'' ''bob'' ''pw'' ''rig2'') \<and>
   verifyMiner sampleExt ''bob'' ''pw'' = correctPassword \<and>
   login (session (stateOf (iteration sampleExt sampleConf (frameRead frameLoginBob)
      \<lparr>session = sampleSession, loginVar = ''alice'', trace = []\<rparr>))) = ''bob''"
proof -
  have h: "handledRequest sampleExt (frameRead frameLoginBob) =
             Some (loginRequest ''2'' ''bob'' ''pw'' ''rig2'')"
    by (simp add: handledRequest_def sample_frame_defs)
  have v: "verifyMiner sampleExt ''bob'' ''pw'' = correctPassword"
    by (simp add: sampleVerifyMiner_def)
  from login_field_written_by_login_requests
         [of sampleExt sampleConf "frameRead frameLoginBob"
             "\<lparr>session = sampleSession, loginVar = ''alice'', trace = []\<rparr>"] h v
  show ?thesis by (simp add: sampleVerifyMiner_def)
qed

text \<open>
  The claim C3 as stated fails on one connection that logs in as \<open>alice\<close> and then as
  \<open>bob\<close>, or as \<open>alice\<close> and then with a wrong password: the login goes from
  \<open>alice\<close> to \<open>bob\<close>, or back to the empty string.
\<close>

theorem login_rewritten_counterexample:
  "login (session (stateOf (readLoop sampleExt sampleConf
      [frameRead frameLoginAlice] (newConn sampleExt sampleConf)))) = ''alice'' \<and>
   login (session (stateOf (readLoop sampleExt sampleConf
      [frameRead frameLoginAlice, frameRead frameLoginBob] (newConn sampleExt sampleConf)))) = ''bob'' \<and>
   login (session (stateOf (readLoop sampleExt sampleConf
      [frameRead frameLoginAlice, frameRead frameLoginWrong] (newConn sampleExt sampleConf)))) = ''''"
  by (simp add: iteration_sample_login [OF sample_alice] iteration_sample_login [OF sample_bob]
        iteration_sample_login [OF sample_wrong] stateOf_def loginCase_session
        sampleVerifyMiner_def)

section \<open>The heartbeats of a connection\<close>

text \<open>
  C4, as the code has it. Whatever has happened to a connection, it has one heartbeat for
  every \<open>go\<close> statement that \<open>handleConn\<close> has executed, and every login request that
  the loop dispatches and whose agent passes the omit test executes one, however many
  heartbeats are running. As long as the context is not cancelled all of them are in their
  loop; once it is cancelled all of them have returned.
\<close>

theorem heartbeats_active_until_cancellation:
  assumes "c = run ext conf hs (accepted ext conf)"
  shows "handler c = handleConn ext conf (reads hs)
       \<and> length (heartbeatTasks c) = heartbeatsStarted (stateOf (handler c))
       \<and> heartbeatsStarted (stateOf (iteration ext conf ev st)) =
           heartbeatsStarted st +
           (case handledRequest ext ev of
              None \<Rightarrow> 0
            | Some req \<Rightarrow>
                if reqMethod req = ''login'' \<and>
                   requireCallStatus (agentOf ext ev req) (OmitAgentStatus conf)
                then 1 else 0)
       \<and> (\<not> cancelled c \<longrightarrow> (\<forall>t \<in> set (heartbeatTasks c). isRunning t))
       \<and> (cancelled c \<longrightarrow> (\<forall>t \<in> set (heartbeatTasks c). \<not> isRunning t))"
proof -
  have con: "consistent c" unfolding assms by (rule consistent_reached)
  then have "length (heartbeatTasks c) = heartbeatsStarted (stateOf (handler c))"
    by (simp add: consistent_def heartbeatTasks_def)
  moreover have "handler c = handleConn ext conf (reads hs)"
    unfolding assms by (rule handler_run_accepted)
  ultimately show ?thesis
    using heartbeatTasks_running [OF con] heartbeatsStarted_iteration [of ext conf ev st]
    by simp
qed

theorem heartbeats_active_until_cancellation_witness:
  "\<not> cancelled (run sampleExt sampleConf
       [Read (frameRead frameLoginAlice), Fire 0 10000000000 None] (accepted sampleExt sampleConf)) \<and>
   heartbeatTasks (run sampleExt sampleConf
       [Read (frameRead frameLoginAlice), Fire 0 10000000000 None] (accepted sampleExt sampleConf)) =
     [Running [NodeEncodeRequest statusReq]] \<and>
   cancelled (run sampleExt sampleConf
       [Read (frameRead frameLoginAlice), Fire 0 10000000000 None, Read (frameRead []),
        Fire 0 10000000000 None] (accepted sampleExt sampleConf)) \<and>
   heartbeatTasks (run sampleExt sampleConf
       [Read (frameRead frameLoginAlice), Fire 0 10000000000 None, Read (frameRead []),
        Fire 0 10000000000 None] (accepted sampleExt sampleConf)) =
     [Returned [NodeEncodeRequest statusReq]] \<and>
   isRunning (heartbeatTasks (run sampleExt sampleConf
       [Read (frameRead frameLoginAlice), Fire 0 10000000000 None] (accepted sampleExt sampleConf)) ! 0) \<and>
   \<not> isRunning (heartbeatTasks (run sampleExt sampleConf
       [Read (frameRead frameLoginAlice), Fire 0 10000000000 None, Read (frameRead []),
        Fire 0 10000000000 None] (accepted sampleExt sampleConf)) ! 0)"
proof -
  let ?c1 = "run sampleExt sampleConf
       [Read (frameRead frameLoginAlice), Fire 0 10000000000 None] (accepted sampleExt sampleConf)"
  let ?c2 = "run sampleExt sampleConf
       [Read (frameRead frameLoginAlice), Fire 0 10000000000 None, Read (frameRead []),
        Fire 0 10000000000 None] (accepted sampleExt sampleConf)"
  have t1: "heartbeatTasks ?c1 = [Running [NodeEncodeRequest statusReq]]"
    unfolding sample_c1 by (simp add: heartbeatTasks_def callStatusPerInterval_def Second_def)
  have t2: "heartbeatTasks ?c2 = [Returned [NodeEncodeRequest statusReq]]"
    unfolding sample_c2 by (simp add: heartbeatTasks_def callStatusPerInterval_def Second_def)
  have n1: "\<not> cancelled ?c1"
    unfolding sample_c1
    by (simp add: cancelled_def loginCase_trace sampleVerifyMiner_def newConn_def)
  have y2: "cancelled ?c2"
    unfolding sample_c2 by (simp add: cancelled_def)
  from heartbeats_active_until_cancellation [OF refl, of sampleExt sampleConf
         "[Read (frameRead frameLoginAlice), Fire 0 10000000000 None, Read (frameRead []),
           Fire 0 10000000000 None]"] y2
  have "\<forall>t \<in> set (heartbeatTasks ?c2). \<not> isRunning t" by blast
  then have r2: "\<not> isRunning (heartbeatTasks ?c2 ! 0)" using t2 by simp
  from heartbeats_active_until_cancellation [OF refl, of sampleExt sampleConf
         "[Read (frameRead frameLoginAlice), Fire 0 10000000000 None]"] n1
  have "\<forall>t \<in> set (heartbeatTasks ?c1). isRunning t" by blast
  then have r1: "isRunning (heartbeatTasks ?c1 ! 0)" using t1 by simp
  from t1 t2 n1 y2 r1 r2 show ?thesis by blast
qed

text \<open>
  The claim C4 as stated fails on a connection that sends its login request twice: the
  loop is still reading, the context is not cancelled, and two heartbeats are in their
  loop, each of which has sent a request on a tick of its own ticker.
\<close>

theorem two_heartbeats_counterexample:
  "\<not> returned (handler (run sampleExt sampleConf
       [Read (frameRead frameLoginAlice), Read (frameRead frameLoginAlice),
        Fire 0 10000000000 None, Fire 1 10000000000 None] (accepted sampleExt sampleConf))) \<and>
   \<not> cancelled (run sampleExt sampleConf
       [Read (frameRead frameLoginAlice), Read (frameRead frameLoginAlice),
        Fire 0 10000000000 None, Fire 1 10000000000 None] (accepted sampleExt sampleConf)) \<and>
   heartbeatTasks (run sampleExt sampleConf
       [Read (frameRead frameLoginAlice), Read (frameRead frameLoginAlice),
        Fire 0 10000000000 None, Fire 1 10000000000 None] (accepted sampleExt sampleConf)) =
     [Running [NodeEncodeRequest statusReq], Running [NodeEncodeRequest statusReq]]"
proof -
  let ?hs = "[Read (frameRead frameLoginAlice), Read (frameRead frameLoginAlice),
        Fire 0 10000000000 None, Fire 1 10000000000 None]"
  let ?c = "run sampleExt sampleConf ?hs (accepted sampleExt sampleConf)"
  have h: "\<not> returned (handler ?c)"
    by (subst handler_run_accepted)
       (simp add: handleConn_def iteration_sample_login [OF sample_alice])
  have t: "heartbeatTasks ?c =
     [Running [NodeEncodeRequest statusReq], Running [NodeEncodeRequest statusReq]]"
    by (simp add: accepted_def happen_def iteration_sample_login [OF sample_alice]
          heartbeatsStarted_loginCase heartbeatTasks_def callStatusPerInterval_def Second_def)
  have "consistent ?c" by (rule consistent_reached)
  with h have "\<not> cancelled ?c" by (simp add: consistent_def)
  with h t show ?thesis by blast
qed




end
